theory Spec2Isabelle
  imports Complex_Main
begin

section \<open>Strings, characters and the regular-expression scanner\<close>

text \<open>
  A Python \<^verbatim>\<open>str\<close> is a sequence of Unicode code points; the filings are decoded from
  windows-1252 or UTF-8, so code points above 255 occur (the pattern of \<^verbatim>\<open>GoogleMDNA\<close>
  itself contains U+2019). A string is therefore a list of code points, and \<open>str\<close>
  writes an ASCII literal.
\<close>

type_synonym pystr = "nat list"

definition str :: "string \<Rightarrow> pystr" where
  "str s = map of_char s"

text \<open>
  The classes \<^verbatim>\<open>\w\<close> (behind \<^verbatim>\<open>\b\<close>) and \<^verbatim>\<open>\d\<close> of a \<^verbatim>\<open>str\<close> pattern follow the Unicode
  character database, which is not part of the repository. Its answers on the non-ASCII
  code points are a parameter of the model: \<open>uni_alnum\<close> is \<^verbatim>\<open>str.isalnum\<close> and
  \<open>uni_decimal\<close> gives the value of a decimal digit. On ASCII the classes are written out.
\<close>

record ucd =
  uni_alnum :: "nat \<Rightarrow> bool"
  uni_decimal :: "nat \<Rightarrow> nat option"

definition ascii_upper :: "nat \<Rightarrow> bool" where
  "ascii_upper c = (65 \<le> c \<and> c \<le> 90)"

definition ascii_lower :: "nat \<Rightarrow> bool" where
  "ascii_lower c = (97 \<le> c \<and> c \<le> 122)"

definition ascii_letter :: "nat \<Rightarrow> bool" where
  "ascii_letter c = (ascii_upper c \<or> ascii_lower c)"

definition ascii_digit :: "nat \<Rightarrow> bool" where
  "ascii_digit c = (48 \<le> c \<and> c \<le> 57)"

definition is_word :: "ucd \<Rightarrow> nat \<Rightarrow> bool" where
  \<comment> \<open>\<^verbatim>\<open>\w\<close>: alphanumeric or underscore\<close>
  "is_word U c = (if c < 128 then ascii_letter c \<or> ascii_digit c \<or> c = 95 else uni_alnum U c)"

definition is_digit :: "ucd \<Rightarrow> nat \<Rightarrow> bool" where
  \<comment> \<open>\<^verbatim>\<open>\d\<close>: a decimal digit\<close>
  "is_digit U c = (if c < 128 then ascii_digit c else uni_decimal U c \<noteq> None)"

definition at_boundary :: "ucd \<Rightarrow> pystr \<Rightarrow> nat \<Rightarrow> bool" where
  \<comment> \<open>\<^verbatim>\<open>\b\<close> at position \<open>i\<close>: exactly one of the characters before and after is a word character;
      outside the string there is none\<close>
  "at_boundary U text i =
     ((0 < i \<and> i \<le> length text \<and> is_word U (text ! (i - 1)))
       \<noteq> (i < length text \<and> is_word U (text ! i)))"

text \<open>
  \<^verbatim>\<open>re.findall\<close> scans from the left: at each position it asks the pattern for a match
  starting there; after a match it resumes at the match's end, otherwise one position
  further. A matcher returns the end of its match. None of the patterns of \<^verbatim>\<open>Fog\<close>
  matches the empty string (\<open>match_word_bounds\<close>, \<open>match_sentence_bounds\<close>,
  \<open>match_syllable_bounds\<close> below), so resuming at the end always advances.
\<close>

function findall_spans :: "(pystr \<Rightarrow> nat \<Rightarrow> nat option) \<Rightarrow> pystr \<Rightarrow> nat \<Rightarrow> (nat \<times> nat) list" where
  "findall_spans m text i =
     (if length text < i then []
      else case m text i of
             Some j \<Rightarrow> (i, j) # findall_spans m text (max j (Suc i))
           | None \<Rightarrow> findall_spans m text (Suc i))"
  by pat_completeness auto
termination
  by (relation "measure (\<lambda>(m, text, i). Suc (length text) - i)") auto

declare findall_spans.simps [simp del]

definition slice :: "pystr \<Rightarrow> nat \<times> nat \<Rightarrow> pystr" where
  "slice text sp = take (snd sp - fst sp) (drop (fst sp) text)"

section \<open>Fog: syllables, words, sentences\<close>

subsection \<open>count_syllables\<close>

text \<open>
  \<^verbatim>\<open>re_syllables = re.compile(r'(^|[^aeuoiy])(?!e$)[aeouiy]', re.IGNORECASE)\<close>.
  Under \<^verbatim>\<open>re.IGNORECASE\<close> a \<^verbatim>\<open>str\<close> pattern matches case-insensitively over Unicode: the
  class \<^verbatim>\<open>[aeouiy]\<close> accepts the twelve ASCII letters and, through \<^verbatim>\<open>i\<close>, the two letters
  U+0130 (capital I with dot above) and U+0131 (dotless i), as the documentation of the
  \<^verbatim>\<open>re\<close> module notes for \<^verbatim>\<open>[a-z]\<close>. The literal \<^verbatim>\<open>e\<close> accepts \<^verbatim>\<open>e\<close> and \<^verbatim>\<open>E\<close>.
\<close>

definition ascii_vowel :: "nat \<Rightarrow> bool" where
  "ascii_vowel c = (c \<in> {97, 101, 105, 111, 117, 121, 65, 69, 73, 79, 85, 89})"

definition vowel :: "nat \<Rightarrow> bool" where
  "vowel c = (ascii_vowel c \<or> c = 304 \<or> c = 305)"

definition at_dollar :: "pystr \<Rightarrow> nat \<Rightarrow> bool" where
  \<comment> \<open>\<^verbatim>\<open>$\<close> without \<^verbatim>\<open>re.MULTILINE\<close>: the end of the string, or just before a final newline\<close>
  "at_dollar text i = (i = length text \<or> (Suc i = length text \<and> text ! i = 10))"

definition not_e_end :: "pystr \<Rightarrow> nat \<Rightarrow> bool" where
  \<comment> \<open>the negative lookahead \<^verbatim>\<open>(?!e$)\<close> at position \<open>i\<close>\<close>
  "not_e_end text i = (\<not> (i < length text \<and> (text ! i = 101 \<or> text ! i = 69) \<and> at_dollar text (Suc i)))"

definition match_syllable :: "pystr \<Rightarrow> nat \<Rightarrow> nat option" where
  \<comment> \<open>first alternative \<^verbatim>\<open>^\<close> (only at position 0), then \<^verbatim>\<open>[^aeuoiy]\<close>\<close>
  "match_syllable text i =
     (if i = 0 \<and> not_e_end text 0 \<and> 0 < length text \<and> vowel (text ! 0) then Some 1
      else if i < length text \<and> \<not> vowel (text ! i) \<and> not_e_end text (Suc i)
              \<and> Suc i < length text \<and> vowel (text ! Suc i) then Some (i + 2)
      else None)"

definition count_syllables :: "pystr \<Rightarrow> nat" where
  "count_syllables word = length (findall_spans match_syllable word 0)"

definition is_complex_word :: "pystr \<Rightarrow> bool" where
  "is_complex_word word = (3 \<le> count_syllables word)"

subsection \<open>identify_words\<close>

text \<open>
  \<^verbatim>\<open>re.findall(r"\b[a-zA-Z\'\-]+\b", input_text)\<close>. The class is greedy: it takes the whole
  run of class characters and gives characters back one at a time until the closing
  \<^verbatim>\<open>\b\<close> holds.
\<close>

definition in_word_class :: "nat \<Rightarrow> bool" where
  "in_word_class c = (ascii_letter c \<or> c = 39 \<or> c = 45)"

fun word_end :: "ucd \<Rightarrow> pystr \<Rightarrow> nat \<Rightarrow> nat \<Rightarrow> nat option" where
  "word_end U text i 0 = None"
| "word_end U text i (Suc n) =
     (if at_boundary U text (i + Suc n) then Some (i + Suc n) else word_end U text i n)"

definition match_word :: "ucd \<Rightarrow> pystr \<Rightarrow> nat \<Rightarrow> nat option" where
  "match_word U text i =
     (if at_boundary U text i
      then word_end U text i (length (takeWhile in_word_class (drop i text)))
      else None)"

definition identify_words :: "ucd \<Rightarrow> pystr \<Rightarrow> pystr list" where
  "identify_words U input_text = map (slice input_text) (findall_spans (match_word U) input_text 0)"

definition count_words :: "ucd \<Rightarrow> pystr \<Rightarrow> nat" where
  "count_words U input_text = length (identify_words U input_text)"

subsection \<open>identify_sentences\<close>

text \<open>
  \<^verbatim>\<open>re.findall(r"\b[A-Z](?:[^\.!?]|\.\d)*[\.!?]", input_text)\<close>. After the capital letter
  the greedy star first tries one more round, with \<^verbatim>\<open>[^\.!?]\<close> and then with \<^verbatim>\<open>\.\d\<close>; only
  when no round leads to a match does it leave the loop and ask for the closing
  \<^verbatim>\<open>[\.!?]\<close>. \<open>sentence_rest\<close> is that backtracking search from position \<open>i\<close>.
\<close>

definition is_stop :: "nat \<Rightarrow> bool" where
  "is_stop c = (c = 46 \<or> c = 33 \<or> c = 63)"

function sentence_rest :: "ucd \<Rightarrow> pystr \<Rightarrow> nat \<Rightarrow> nat option" where
  "sentence_rest U text i =
     (if length text \<le> i then None
      else case (if \<not> is_stop (text ! i) then sentence_rest U text (Suc i) else None) of
             Some j \<Rightarrow> Some j
           | None \<Rightarrow>
               (case (if text ! i = 46 \<and> Suc i < length text \<and> is_digit U (text ! Suc i)
                      then sentence_rest U text (i + 2) else None) of
                  Some j \<Rightarrow> Some j
                | None \<Rightarrow> if is_stop (text ! i) then Some (Suc i) else None))"
  by pat_completeness auto
termination
  by (relation "measure (\<lambda>(U, text, i). length text - i)") auto

declare sentence_rest.simps [simp del]

definition match_sentence :: "ucd \<Rightarrow> pystr \<Rightarrow> nat \<Rightarrow> nat option" where
  "match_sentence U text i =
     (if at_boundary U text i \<and> i < length text \<and> ascii_upper (text ! i)
      then sentence_rest U text (Suc i) else None)"

definition identify_sentences :: "ucd \<Rightarrow> pystr \<Rightarrow> pystr list" where
  "identify_sentences U input_text =
     map (slice input_text) (findall_spans (match_sentence U) input_text 0)"

definition count_sentences :: "ucd \<Rightarrow> pystr \<Rightarrow> nat" where
  "count_sentences U input_text = length (identify_sentences U input_text)"


subsection \<open>calculate_fog\<close>

text \<open>
  A Python \<^verbatim>\<open>float\<close> is an IEEE 754 double. A finite double is modelled by the rational
  number it denotes, and every operation rounds its exact result to the nearest double,
  ties to even (\<open>round_double\<close>): the unit in the last place is \<open>2 powi e\<close> with
  \<open>2 ^ 52 \<le> x / 2 powi e < 2 ^ 53\<close>, and never below \<open>2 powi - 1074\<close>. The lengths that
  \<^verbatim>\<open>calculate_fog\<close> converts are far below the overflow threshold \<open>2 ^ 1024\<close>.
  Dividing by the float zero raises \<^verbatim>\<open>ZeroDivisionError\<close>.
\<close>

datatype error = ZeroDivisionError | TypeError | ValueError | IndexError
  | NotImplementedError | ParserError

type_synonym pyfloat = rat

definition round_half_even :: "rat \<Rightarrow> int" where
  "round_half_even x =
     (let f = \<lfloor>x\<rfloor>; r = x - of_int f
      in if r < 1 / 2 then f else if 1 / 2 < r then f + 1 else if even f then f else f + 1)"

function bit_length :: "int \<Rightarrow> nat" where
  "bit_length k = (if k \<le> 0 then 0 else Suc (bit_length (k div 2)))"
  by pat_completeness auto
termination
  by (relation "measure nat") auto

declare bit_length.simps [simp del]

definition binary_exponent :: "rat \<Rightarrow> int" where
  "binary_exponent x =
     (let e0 = (if 1 \<le> x then int (bit_length \<lfloor>x\<rfloor>) - 53
                else - int (bit_length \<lfloor>1 / x\<rfloor>) - 52);
          e = (if x / 2 powi e0 < 2 ^ 53 then e0 else e0 + 1)
      in max e (- 1074))"

definition round_double :: "rat \<Rightarrow> pyfloat" where
  "round_double x =
     (if x = 0 then 0
      else let e = binary_exponent \<bar>x\<bar>
           in sgn x * of_int (round_half_even (\<bar>x\<bar> / 2 powi e)) * 2 powi e)"

definition float_of_nat :: "nat \<Rightarrow> pyfloat" where
  "float_of_nat n = round_double (of_nat n)"

definition float_div :: "pyfloat \<Rightarrow> pyfloat \<Rightarrow> error + pyfloat" where
  "float_div a b = (if b = 0 then Inl ZeroDivisionError else Inr (round_double (a / b)))"

definition float_mul :: "pyfloat \<Rightarrow> pyfloat \<Rightarrow> pyfloat" where
  "float_mul a b = round_double (a * b)"

definition float_add :: "pyfloat \<Rightarrow> pyfloat \<Rightarrow> pyfloat" where
  "float_add a b = round_double (a + b)"

text \<open>
  \<^verbatim>\<open>0.4*(float(len(words))/float(len(sentences))
        + 100*float(len(complex_words))/float(len(words)))\<close>:
  the operands are evaluated from left to right, the integer \<^verbatim>\<open>100\<close> is converted to a
  float by the multiplication, and the literal \<^verbatim>\<open>0.4\<close> is the double nearest to \<open>2 / 5\<close>.
\<close>

definition fog_formula :: "nat \<Rightarrow> nat \<Rightarrow> nat \<Rightarrow> error + pyfloat" where
  "fog_formula n_sentences n_words n_complex =
     (case float_div (float_of_nat n_words) (float_of_nat n_sentences) of
        Inl e \<Rightarrow> Inl e
      | Inr per_sentence \<Rightarrow>
          (case float_div (float_mul (float_of_nat 100) (float_of_nat n_complex))
                          (float_of_nat n_words) of
             Inl e \<Rightarrow> Inl e
           | Inr percent \<Rightarrow>
               Inr (float_mul (round_double (2 / 5)) (float_add per_sentence percent))))"

definition calculate_fog :: "ucd \<Rightarrow> pystr \<Rightarrow> error + pyfloat" where
  "calculate_fog U text =
     (let sentences = identify_sentences U text;
          words = identify_words U text;
          complex_words = filter is_complex_word words
      in fog_formula (length sentences) (length words) (length complex_words))"

text \<open>
  The character database with no alphanumeric and no digit outside ASCII. On a text of
  ASCII characters the database is never consulted beyond ASCII.
\<close>

definition ascii_ucd :: ucd where
  "ascii_ucd = \<lparr>uni_alnum = (\<lambda>c. False), uni_decimal = (\<lambda>c. None)\<rparr>"

section \<open>Documents, as lxml presents them\<close>

text \<open>
  \<^verbatim>\<open>lxml\<close> is an external library. What the code reads of a parsed document is modelled: an
  element has a tag, attributes, the text before its first child, its children and the
  text after its end tag (\<^verbatim>\<open>tail\<close>); a comment or processing instruction has a content
  and a tail, and no string for a tag.
\<close>

datatype node =
    Element pystr "(pystr \<times> pystr) list" "pystr option" "node list" "pystr option"
  | Comment "pystr option" "pystr option"

fun element_text :: "node \<Rightarrow> pystr option" where
  "element_text (Element t a x cs tail) = x"
| "element_text (Comment x tail) = x"

fun element_tail :: "node \<Rightarrow> pystr option" where
  "element_tail (Element t a x cs tail) = tail"
| "element_tail (Comment x tail) = tail"

fun is_tag :: "pystr \<Rightarrow> node \<Rightarrow> bool" where
  "is_tag name (Element t a x cs tail) = (t = name)"
| "is_tag name (Comment x tail) = False"

fun get_attr :: "node \<Rightarrow> pystr \<Rightarrow> pystr option" where
  "get_attr (Element t a x cs tail) k = map_of a k"
| "get_attr (Comment x tail) k = None"

definition has_tag_attr :: "pystr \<Rightarrow> pystr \<Rightarrow> pystr \<Rightarrow> node \<Rightarrow> bool" where
  \<comment> \<open>the XPath node test \<^verbatim>\<open>name[@k="v"]\<close>\<close>
  "has_tag_attr name k v n = (is_tag name n \<and> get_attr n k = Some v)"

text \<open>
  \<^verbatim>\<open>lxml.html.fromstring\<close> returns an element (\<open>focus\<close>) that stays inside the parsed document
  (\<open>tree\<close>, the document's root element): for a fragment it is the single element of the
  body, or the body itself. An absolute XPath (\<^verbatim>\<open>//...\<close>) evaluated on the returned element
  ranges over the whole document; \<^verbatim>\<open>findall(tag)\<close> and \<^verbatim>\<open>text_content()\<close> look below the returned
  element only. The parser and the serializer \<^verbatim>\<open>etree.tostring\<close> are parameters of the model;
  a parse may raise.
\<close>

record parsed =
  tree :: node
  focus :: node

record lxml =
  fromstring :: "pystr \<Rightarrow> error + parsed"
  tostring :: "node \<Rightarrow> pystr"

text \<open>XPath results come in document order, which is the preorder of the tree.\<close>

fun descendants_or_self :: "node \<Rightarrow> node list" where
  "descendants_or_self (Element t a x cs tail) =
     Element t a x cs tail # concat (map descendants_or_self cs)"
| "descendants_or_self (Comment x tail) = [Comment x tail]"

definition xpath_all :: "(node \<Rightarrow> bool) \<Rightarrow> node \<Rightarrow> node list" where
  \<comment> \<open>\<^verbatim>\<open>//test\<close>\<close>
  "xpath_all P n = filter P (descendants_or_self n)"

fun xpath_children :: "(node \<Rightarrow> bool) \<Rightarrow> (node \<Rightarrow> bool) \<Rightarrow> node \<Rightarrow> node list" where
  \<comment> \<open>\<^verbatim>\<open>//parent/child\<close>: the children passing \<open>Q\<close> of the nodes passing \<open>P\<close>\<close>
  "xpath_children P Q (Element t a x cs tail) =
     concat (map (\<lambda>c. (if P (Element t a x cs tail) \<and> Q c then [c] else []) @ xpath_children P Q c) cs)"
| "xpath_children P Q (Comment x tail) = []"

subsection \<open>str.strip, str.split, str.startswith, the operator in\<close>

definition is_space :: "nat \<Rightarrow> bool" where
  \<comment> \<open>\<^verbatim>\<open>str.isspace\<close>, for one character\<close>
  "is_space c = (c \<in> {9, 10, 11, 12, 13, 28, 29, 30, 31, 32, 133, 160, 5760,
                       8232, 8233, 8239, 8287, 12288} \<or> (8192 \<le> c \<and> c \<le> 8202))"

definition py_strip :: "pystr \<Rightarrow> pystr" where
  "py_strip s = rev (dropWhile is_space (rev (dropWhile is_space s)))"

fun split_from :: "pystr \<Rightarrow> pystr \<Rightarrow> pystr list" where
  "split_from cur [] = (if cur = [] then [] else [cur])"
| "split_from cur (c # s) =
     (if is_space c then (if cur = [] then [] else [cur]) @ split_from [] s
      else split_from (cur @ [c]) s)"

definition py_split :: "pystr \<Rightarrow> pystr list" where
  \<comment> \<open>\<^verbatim>\<open>s.split()\<close>: the maximal runs of non-space characters\<close>
  "py_split s = split_from [] s"

definition startswith :: "pystr \<Rightarrow> pystr \<Rightarrow> bool" where
  "startswith s p = (take (length p) s = p)"

fun contains :: "pystr \<Rightarrow> pystr \<Rightarrow> bool" where
  \<comment> \<open>\<^verbatim>\<open>p in s\<close>\<close>
  "contains p [] = (p = [])"
| "contains p (c # s) = (startswith (c # s) p \<or> contains p s)"

subsection \<open>datetime.strptime(date_str, '%m/%d/%Y') and strftime('%Y')\<close>

text \<open>
  \<^verbatim>\<open>strptime\<close> turns the format into the regular expression
  \<^verbatim>\<open>(?P<m>1[0-2]|0[1-9]|[1-9])/(?P<d>3[0-1]|[1-2]\d|0[1-9]|[1-9]| [1-9])/(?P<Y>\d\d\d\d)\<close>,
  matches it at the start of the string and raises \<^verbatim>\<open>ValueError\<close> when there is no match,
  when characters remain after the match, or when the numbers are not a date (year 0, a
  day beyond the month's length). Each group lists its alternatives in the order in which
  the matcher tries them, with the rest of the string after each; the match is the first
  combination that goes through. A date is \<open>(year, month, day)\<close>.
\<close>

type_synonym date = "nat \<times> nat \<times> nat"

definition decimal_value :: "ucd \<Rightarrow> nat \<Rightarrow> nat option" where
  \<comment> \<open>the value of a character of class \<^verbatim>\<open>\d\<close>, a number from 0 to 9\<close>
  "decimal_value U c =
     (if c < 128 then (if ascii_digit c then Some (c - 48) else None)
      else case uni_decimal U c of None \<Rightarrow> None | Some v \<Rightarrow> if v < 10 then Some v else None)"

definition lit :: "nat \<Rightarrow> pystr \<Rightarrow> pystr list" where
  "lit c s = (case s of [] \<Rightarrow> [] | x # r \<Rightarrow> if x = c then [r] else [])"

definition month_alts :: "pystr \<Rightarrow> (nat \<times> pystr) list" where
  "month_alts s =
     (case s of c1 # c2 # r \<Rightarrow> if c1 = 49 \<and> 48 \<le> c2 \<and> c2 \<le> 50 then [(10 + (c2 - 48), r)] else []
              | _ \<Rightarrow> [])
     @ (case s of c1 # c2 # r \<Rightarrow> if c1 = 48 \<and> 49 \<le> c2 \<and> c2 \<le> 57 then [(c2 - 48, r)] else []
                | _ \<Rightarrow> [])
     @ (case s of c1 # r \<Rightarrow> if 49 \<le> c1 \<and> c1 \<le> 57 then [(c1 - 48, r)] else []
                | _ \<Rightarrow> [])"

definition day_alts :: "ucd \<Rightarrow> pystr \<Rightarrow> (nat \<times> pystr) list" where
  "day_alts U s =
     (case s of c1 # c2 # r \<Rightarrow> if c1 = 51 \<and> 48 \<le> c2 \<and> c2 \<le> 49 then [(30 + (c2 - 48), r)] else []
              | _ \<Rightarrow> [])
     @ (case s of c1 # c2 # r \<Rightarrow>
                    if 49 \<le> c1 \<and> c1 \<le> 50
                    then (case decimal_value U c2 of None \<Rightarrow> [] | Some v \<Rightarrow> [(10 * (c1 - 48) + v, r)])
                    else []
                | _ \<Rightarrow> [])
     @ (case s of c1 # c2 # r \<Rightarrow> if c1 = 48 \<and> 49 \<le> c2 \<and> c2 \<le> 57 then [(c2 - 48, r)] else []
                | _ \<Rightarrow> [])
     @ (case s of c1 # r \<Rightarrow> if 49 \<le> c1 \<and> c1 \<le> 57 then [(c1 - 48, r)] else []
                | _ \<Rightarrow> [])
     @ (case s of c1 # c2 # r \<Rightarrow> if c1 = 32 \<and> 49 \<le> c2 \<and> c2 \<le> 57 then [(c2 - 48, r)] else []
                | _ \<Rightarrow> [])"

definition year_alts :: "ucd \<Rightarrow> pystr \<Rightarrow> (nat \<times> pystr) list" where
  "year_alts U s =
     (case s of
        c1 # c2 # c3 # c4 # r \<Rightarrow>
          (case (decimal_value U c1, decimal_value U c2, decimal_value U c3, decimal_value U c4) of
             (Some v1, Some v2, Some v3, Some v4) \<Rightarrow> [(1000 * v1 + 100 * v2 + 10 * v3 + v4, r)]
           | _ \<Rightarrow> [])
      | _ \<Rightarrow> [])"

definition strptime_matches :: "ucd \<Rightarrow> pystr \<Rightarrow> (date \<times> pystr) list" where
  "strptime_matches U s =
     [((y, m, d), r5). (m, r1) \<leftarrow> month_alts s, r2 \<leftarrow> lit 47 r1, (d, r3) \<leftarrow> day_alts U r2,
                       r4 \<leftarrow> lit 47 r3, (y, r5) \<leftarrow> year_alts U r4]"

definition leap_year :: "nat \<Rightarrow> bool" where
  "leap_year y = (y mod 4 = 0 \<and> (y mod 100 \<noteq> 0 \<or> y mod 400 = 0))"

definition days_in_month :: "nat \<Rightarrow> nat \<Rightarrow> nat" where
  "days_in_month y m =
     (if m = 2 then (if leap_year y then 29 else 28)
      else if m = 4 \<or> m = 6 \<or> m = 9 \<or> m = 11 then 30 else 31)"

definition strptime :: "ucd \<Rightarrow> pystr \<Rightarrow> error + date" where
  "strptime U date_str =
     (case strptime_matches U date_str of
        [] \<Rightarrow> Inl ValueError
      | ((y, m, d), rest) # _ \<Rightarrow>
          if rest \<noteq> [] then Inl ValueError
          else if y = 0 \<or> days_in_month y m < d then Inl ValueError
          else Inr (y, m, d))"

function decimal :: "nat \<Rightarrow> pystr" where
  "decimal n = (if n < 10 then [48 + n] else decimal (n div 10) @ [48 + n mod 10])"
  by pat_completeness auto
termination
  by (relation "measure id") auto

declare decimal.simps [simp del]

definition strftime_Y :: "date \<Rightarrow> pystr" where
  \<comment> \<open>\<^verbatim>\<open>strftime('%Y')\<close>: the year in decimal; glibc does not pad a year below 1000\<close>
  "strftime_Y report_date = decimal (fst report_date)"

fun date_gt :: "date \<Rightarrow> date \<Rightarrow> bool" where
  \<comment> \<open>\<^verbatim>\<open>>\<close> on two \<^verbatim>\<open>datetime\<close> values at midnight\<close>
  "date_gt (y, m, d) (y', m', d') = (y' < y \<or> (y = y' \<and> (m' < m \<or> (m = m' \<and> d' < d))))"

section \<open>The extractors\<close>

text \<open>
  \<^verbatim>\<open>extract_mdna\<close> returns a pair \<^verbatim>\<open>(fragment, year)\<close>, each possibly \<^verbatim>\<open>None\<close>; the bare
  \<^verbatim>\<open>return\<close> of three of the classes returns \<^verbatim>\<open>None\<close> in place of the pair, which is the
  outer \<open>None\<close> here. \<open>Inl\<close> is an exception.
\<close>

type_synonym section_result = "pystr option \<times> pystr option"

definition filing_title :: "parsed \<Rightarrow> node list" where
  \<comment> \<open>\<^verbatim>\<open>doc.xpath('//div[@class="ModuleFilingTitle"]/span')\<close>\<close>
  "filing_title doc =
     xpath_children (has_tag_attr (str ''div'') (str ''class'') (str ''ModuleFilingTitle''))
       (is_tag (str ''span'')) (tree doc)"

definition report_date :: "ucd \<Rightarrow> parsed \<Rightarrow> error + date option" where
  \<comment> \<open>the lines that \<^verbatim>\<open>AppleMDNA\<close>, \<^verbatim>\<open>NetflixMDNA\<close> and \<^verbatim>\<open>AmazonMDNA.extract_mdna\<close> share, from
      \<^verbatim>\<open>title = ...\<close> to \<^verbatim>\<open>report_date = ...\<close>; \<open>Inr None\<close> is the bare \<^verbatim>\<open>return\<close>\<close>
  "report_date U doc =
     (case filing_title doc of
        [] \<Rightarrow> Inr None
      | title0 # _ \<Rightarrow>
          (case element_text title0 of
             None \<Rightarrow> Inr None
           | Some s \<Rightarrow>
               if py_split s = [] then Inl IndexError
               else (case strptime U (last (py_split s)) of
                       Inl e \<Rightarrow> Inl e
                     | Inr d \<Rightarrow> Inr (Some d))))"

subsection \<open>AppleMDNA, and FacebookMDNA which inherits everything\<close>

fun first_summary_cell :: "lxml \<Rightarrow> node list \<Rightarrow> pystr option" where
  "first_summary_cell L [] = None"
| "first_summary_cell L (td # tds) =
     (case element_text td of
        None \<Rightarrow> first_summary_cell L tds
      | Some s \<Rightarrow>
          if startswith (py_strip s) (str ''Summary of Significant Accounting Policies'')
          then Some (tostring L td)
          else first_summary_cell L tds)"

definition extract_mdna_after_2019 :: "lxml \<Rightarrow> parsed \<Rightarrow> pystr option" where
  "extract_mdna_after_2019 L doc =
     first_summary_cell L
       (xpath_all (has_tag_attr (str ''td'') (str ''class'') (str ''text'')) (tree doc))"

fun first_with_text :: "lxml \<Rightarrow> node list \<Rightarrow> pystr option" where
  "first_with_text L [] = None"
| "first_with_text L (el # els) =
     (case element_text el of
        None \<Rightarrow> first_with_text L els
      | Some s \<Rightarrow> Some (tostring L el))"

definition extract_mdna_before_2019 :: "lxml \<Rightarrow> parsed \<Rightarrow> pystr option" where
  "extract_mdna_before_2019 L doc =
     first_with_text L
       (xpath_children
          (has_tag_attr (str ''div'') (str ''id'') (str ''divSummary of Significant Accounting Policies''))
          (is_tag (str ''div'')) (tree doc))"

definition apple_extract_mdna :: "lxml \<Rightarrow> ucd \<Rightarrow> pystr \<Rightarrow> error + section_result option" where
  "apple_extract_mdna L U html_source =
     (case fromstring L html_source of
        Inl e \<Rightarrow> Inl e
      | Inr doc \<Rightarrow>
          (case report_date U doc of
             Inl e \<Rightarrow> Inl e
           | Inr None \<Rightarrow> Inr None
           | Inr (Some d) \<Rightarrow>
               (let year = strftime_Y d
                in if date_gt d (2019, 1, 1)
                   then Inr (Some (extract_mdna_after_2019 L doc, Some year))
                   else Inr (Some (extract_mdna_before_2019 L doc, Some year)))))"

subsection \<open>NetflixMDNA and AmazonMDNA\<close>

fun first_containing :: "lxml \<Rightarrow> pystr list \<Rightarrow> node list \<Rightarrow> pystr option" where
  \<comment> \<open>the first container whose serialization contains one of the phrases\<close>
  "first_containing L phrases [] = None"
| "first_containing L phrases (el # els) =
     (if list_ex (\<lambda>p. contains p (tostring L el)) phrases then Some (tostring L el)
      else first_containing L phrases els)"

definition report_containers :: "parsed \<Rightarrow> node list" where
  "report_containers doc =
     xpath_all (has_tag_attr (str ''div'') (str ''class'') (str ''reportContainer subcontainerNotSelected''))
       (tree doc)"

definition scan_extract_mdna :: "pystr list \<Rightarrow> lxml \<Rightarrow> ucd \<Rightarrow> pystr \<Rightarrow> error + section_result option" where
  "scan_extract_mdna phrases L U html_source =
     (case fromstring L html_source of
        Inl e \<Rightarrow> Inl e
      | Inr doc \<Rightarrow>
          (case report_date U doc of
             Inl e \<Rightarrow> Inl e
           | Inr None \<Rightarrow> Inr None
           | Inr (Some d) \<Rightarrow>
               Inr (Some (first_containing L phrases (report_containers doc), Some (strftime_Y d)))))"

definition netflix_extract_mdna :: "lxml \<Rightarrow> ucd \<Rightarrow> pystr \<Rightarrow> error + section_result option" where
  "netflix_extract_mdna =
     scan_extract_mdna
       [str ''Organization And Summary Of Significant Accounting Policies (Policy)'',
        str ''Organization and Summary of Significant Accounting Policies (Policy)'']"

definition amazon_extract_mdna :: "lxml \<Rightarrow> ucd \<Rightarrow> pystr \<Rightarrow> error + section_result option" where
  "amazon_extract_mdna =
     scan_extract_mdna
       [str ''Description of Business, Accounting Policies, and Supplemental Disclosures (Policies)'',
        str ''DESCRIPTION OF BUSINESS AND ACCOUNTING POLICIES (Policies)'',
        str ''Description of Business and Accounting Policies (Policies)'']"

subsection \<open>GoogleMDNA\<close>

text \<open>
  \<^verbatim>\<open>mdan_cmp\<close> is compiled with \<^verbatim>\<open>re.DOTALL\<close> from the phrase
  \<^verbatim>\<open>MANAGEMENT.S DISCUSSION AND ANALYSIS OF FINANCIAL CONDITION AND RESULTS OF OPERATIONS\<close>,
  then \<^verbatim>\<open>.*?\<close>, then the characters \<^verbatim>\<open><hr\<close> (the source escapes the \<^verbatim>\<open><\<close> with a backslash,
  which changes nothing). The character written \<^verbatim>\<open>.\<close> in the phrase here is, in the source,
  the right single quotation mark U+2019 (code point 8217), not the ASCII apostrophe. With
  \<^verbatim>\<open>re.DOTALL\<close> the lazy \<^verbatim>\<open>.*?\<close> steps over any character, one at a time, until \<^verbatim>\<open><hr\<close>
  follows. \<^verbatim>\<open>search\<close> returns the match at the leftmost position that has one.
\<close>

definition mdan_phrase :: pystr where
  "mdan_phrase = str ''MANAGEMENT'' @ [8217]
     @ str ''S DISCUSSION AND ANALYSIS OF FINANCIAL CONDITION AND RESULTS OF OPERATIONS''"

definition hr_open :: pystr where
  "hr_open = str ''<hr''"

fun lazy_until :: "pystr \<Rightarrow> pystr \<Rightarrow> nat option" where
  \<comment> \<open>\<^verbatim>\<open>.*?p\<close>: the number of characters consumed\<close>
  "lazy_until p [] = (if p = [] then Some 0 else None)"
| "lazy_until p (c # s) =
     (if startswith (c # s) p then Some (length p) else map_option Suc (lazy_until p s))"

definition match_mdan :: "pystr \<Rightarrow> nat \<Rightarrow> nat option" where
  "match_mdan text i =
     (if startswith (drop i text) mdan_phrase
      then map_option (\<lambda>n. i + length mdan_phrase + n)
             (lazy_until hr_open (drop (i + length mdan_phrase) text))
      else None)"

function search_span :: "(pystr \<Rightarrow> nat \<Rightarrow> nat option) \<Rightarrow> pystr \<Rightarrow> nat \<Rightarrow> (nat \<times> nat) option" where
  "search_span m text i =
     (if length text < i then None
      else case m text i of
             Some j \<Rightarrow> Some (i, j)
           | None \<Rightarrow> search_span m text (Suc i))"
  by pat_completeness auto
termination
  by (relation "measure (\<lambda>(m, text, i). Suc (length text) - i)") auto

declare search_span.simps [simp del]

definition google_extract_mdna :: "pystr \<Rightarrow> error + section_result option" where
  "google_extract_mdna html_source =
     Inr (Some (map_option (slice html_source) (search_span match_mdan html_source 0), None))"

subsection \<open>BaseMDNA: get_text_from_html and get_mdna_text\<close>

datatype issuer = BaseMDNA | AppleMDNA | NetflixMDNA | FacebookMDNA | AmazonMDNA | GoogleMDNA

fun extract_mdna :: "issuer \<Rightarrow> lxml \<Rightarrow> ucd \<Rightarrow> pystr \<Rightarrow> error + section_result option" where
  \<comment> \<open>\<^verbatim>\<open>cls.extract_mdna\<close>; \<^verbatim>\<open>class FacebookMDNA(AppleMDNA): pass\<close> inherits the method\<close>
  "extract_mdna BaseMDNA L U html_source = Inl NotImplementedError"
| "extract_mdna AppleMDNA L U html_source = apple_extract_mdna L U html_source"
| "extract_mdna NetflixMDNA L U html_source = netflix_extract_mdna L U html_source"
| "extract_mdna FacebookMDNA L U html_source = apple_extract_mdna L U html_source"
| "extract_mdna AmazonMDNA L U html_source = amazon_extract_mdna L U html_source"
| "extract_mdna GoogleMDNA L U html_source = google_extract_mdna html_source"

definition block_tags :: "pystr list" where
  "block_tags = map str [''tr'', ''th'', ''td'', ''a'', ''p'', ''div'', ''br'',
                         ''h1'', ''h2'', ''h3'', ''h4'', ''h5'']"

fun add_newline :: "node \<Rightarrow> node" where
  \<comment> \<open>\<^verbatim>\<open>if element.text: element.text = element.text + "\n" else: element.text = "\n"\<close>\<close>
  "add_newline (Element t a x cs tail) =
     Element t a (case x of None \<Rightarrow> Some [10] | Some s \<Rightarrow> if s = [] then Some [10] else Some (s @ [10])) cs tail"
| "add_newline (Comment x tail) = Comment x tail"

fun mark_children :: "node \<Rightarrow> pystr \<Rightarrow> node" where
  \<comment> \<open>\<^verbatim>\<open>for element in doc.findall(tag)\<close>: \<^verbatim>\<open>findall\<close> with a bare tag finds the children of
      \<^verbatim>\<open>doc\<close> that carry the tag, not deeper descendants\<close>
  "mark_children (Element t a x cs tail) name =
     Element t a x (map (\<lambda>c. if is_tag name c then add_newline c else c) cs) tail"
| "mark_children (Comment x tail) name = Comment x tail"

definition opt_text :: "pystr option \<Rightarrow> pystr" where
  "opt_text x = (case x of None \<Rightarrow> [] | Some s \<Rightarrow> s)"

fun descendant_text :: "node \<Rightarrow> pystr" where
  \<comment> \<open>the text nodes below a node, in document order; the content of a comment is not one\<close>
  "descendant_text (Element t a x cs tail) =
     opt_text x @ concat (map (\<lambda>c. descendant_text c @ opt_text (element_tail c)) cs)"
| "descendant_text (Comment x tail) = []"

fun text_content :: "node \<Rightarrow> pystr" where
  \<comment> \<open>the XPath \<^verbatim>\<open>string()\<close> of the node\<close>
  "text_content (Element t a x cs tail) = descendant_text (Element t a x cs tail)"
| "text_content (Comment x tail) = opt_text x"

definition get_text_from_html :: "lxml \<Rightarrow> pystr \<Rightarrow> error + pystr" where
  "get_text_from_html L html =
     (case fromstring L html of
        Inl e \<Rightarrow> Inl e
      | Inr doc \<Rightarrow> Inr (py_strip (text_content (foldl mark_children (focus doc) block_tags))))"

definition get_mdna_text :: "issuer \<Rightarrow> lxml \<Rightarrow> ucd \<Rightarrow> pystr \<Rightarrow> error + section_result" where
  \<comment> \<open>unpacking \<^verbatim>\<open>None\<close> into \<^verbatim>\<open>html_mdna_only, year\<close> raises \<^verbatim>\<open>TypeError\<close>\<close>
  "get_mdna_text cls L U html_complete_10k =
     (case extract_mdna cls L U html_complete_10k of
        Inl e \<Rightarrow> Inl e
      | Inr None \<Rightarrow> Inl TypeError
      | Inr (Some (html_mdna_only, year)) \<Rightarrow>
          (case html_mdna_only of
             None \<Rightarrow> Inr (None, year)
           | Some fragment \<Rightarrow>
               (case get_text_from_html L fragment of
                  Inl e \<Rightarrow> Inl e
                | Inr mdna_text \<Rightarrow> Inr (Some mdna_text, year))))"

subsection \<open>A library instance for the examples\<close>

text \<open>
  For a concrete run the examples fix what the library answers: the parser is a finite
  table from inputs to their parsed documents (anything else is a parse error) and the
  serializer writes tags, attributes, text and tail without escaping.
\<close>

fun markup :: "node \<Rightarrow> pystr" where
  "markup (Element t a x cs tail) =
     str ''<'' @ t @ concat (map (\<lambda>(k, v). str '' '' @ k @ str ''=\"'' @ v @ str ''\"'') a) @ str ''>''
     @ opt_text x @ concat (map markup cs) @ str ''</'' @ t @ str ''>'' @ opt_text tail"
| "markup (Comment x tail) = str ''<!--'' @ opt_text x @ str ''-->'' @ opt_text tail"

definition table_lxml :: "(pystr \<times> parsed) list \<Rightarrow> lxml" where
  "table_lxml tbl =
     \<lparr>fromstring = (\<lambda>html. case map_of tbl html of None \<Rightarrow> Inl ParserError | Some doc \<Rightarrow> Inr doc),
      tostring = markup\<rparr>"

subsection \<open>Example documents\<close>

text \<open>
  A filing as the title convention expects it: an optional title division whose span ends
  in the filing date, and a table with one cell of class \<^verbatim>\<open>text\<close>. The input string of an
  example is the serialization of its tree, and the parser returns the tree for it.
  \<open>fragment_lxml\<close> parses a fragment with a single element: the element is returned, and
  sits in the body of the document. \<open>cells_table\<close> is the tree of
  \<^verbatim>\<open><table><tr><td>A</td><td>B</td></tr></table>\<close>: the HTML parser of libxml2 adds no
  \<^verbatim>\<open>tbody\<close>.
\<close>

definition title_div :: "string \<Rightarrow> node" where
  "title_div title =
     Element (str ''div'') [(str ''class'', str ''ModuleFilingTitle'')] None
       [Element (str ''span'') [] (Some (str title)) [] None] None"

definition summary_cell :: node where
  "summary_cell =
     Element (str ''td'') [(str ''class'', str ''text'')]
       (Some (str '' Summary of Significant Accounting Policies and Estimates'')) [] None"

definition filing_tree :: "node list \<Rightarrow> node" where
  "filing_tree title =
     Element (str ''html'') [] None
       [Element (str ''body'') [] None
          (title @ [Element (str ''table'') [] None
                      [Element (str ''tr'') [] None [summary_cell] None] None]) None] None"

definition whole :: "node \<Rightarrow> parsed" where
  "whole n = \<lparr>tree = n, focus = n\<rparr>"

definition filing_lxml :: "node list \<Rightarrow> lxml" where
  "filing_lxml title = table_lxml [(markup (filing_tree title), whole (filing_tree title))]"

definition cells_table :: node where
  "cells_table =
     Element (str ''table'') [] None
       [Element (str ''tr'') [] None
          [Element (str ''td'') [] (Some (str ''A'')) [] None,
           Element (str ''td'') [] (Some (str ''B'')) [] None] None] None"

definition paragraphs :: node where
  "paragraphs =
     Element (str ''div'') [] None
       [Element (str ''p'') [] (Some (str ''A'')) [] None,
        Element (str ''p'') [] (Some (str ''B'')) [] None] None"

definition fragment_lxml :: "node \<Rightarrow> lxml" where
  "fragment_lxml n =
     table_lxml [(markup n,
        \<lparr>tree = Element (str ''html'') [] None [Element (str ''body'') [] None [n] None] None,
         focus = n\<rparr>)]"

section \<open>Properties of the scanner\<close>

text \<open>Every span that \<open>findall_spans\<close> reports is a match of the pattern at its start.\<close>

lemma findall_spans_sound:
  "(s, e) \<in> set (findall_spans m inp i) \<Longrightarrow> m inp s = Some e \<and> i \<le> s \<and> s \<le> length inp"
proof (induction m inp i rule: findall_spans.induct)
  case (1 m t i)
  from "1.prems" have le: "i \<le> length t"
    by (subst (asm) findall_spans.simps) (simp split: if_splits)
  show ?case
  proof (cases "m t i")
    case None
    with "1.prems" le have "(s, e) \<in> set (findall_spans m t (Suc i))"
      by (subst (asm) findall_spans.simps) simp
    with "1.IH"(1) None le show ?thesis by fastforce
  next
    case (Some j)
    with "1.prems" le have "(s, e) = (i, j) \<or> (s, e) \<in> set (findall_spans m t (max j (Suc i)))"
      by (subst (asm) findall_spans.simps) simp
    then show ?thesis
    proof
      assume "(s, e) = (i, j)"
      with Some le show ?thesis by simp
    next
      assume "(s, e) \<in> set (findall_spans m t (max j (Suc i)))"
      with "1.IH"(2) Some le show ?thesis by fastforce
    qed
  qed
qed

lemma word_end_bounds:
  "word_end U inp i n = Some j \<Longrightarrow> i < j \<and> j \<le> i + n \<and> at_boundary U inp j"
  by (induction n) (auto split: if_splits)

lemma match_word_bounds:
  assumes "match_word U inp i = Some j"
  shows "i < j \<and> j \<le> length inp \<and> at_boundary U inp i \<and> at_boundary U inp j
         \<and> (\<forall>k. i \<le> k \<and> k < j \<longrightarrow> in_word_class (inp ! k))"
proof -
  let ?run = "takeWhile in_word_class (drop i inp)"
  from assms have b: "at_boundary U inp i" and w: "word_end U inp i (length ?run) = Some j"
    by (auto simp: match_word_def split: if_splits)
  from word_end_bounds [OF w] have j: "i < j" "j \<le> i + length ?run" "at_boundary U inp j"
    by auto
  have len: "length ?run \<le> length inp - i"
    using length_takeWhile_le [of in_word_class "drop i inp"] by simp
  from j len have il: "i < length inp" by linarith
  have cls: "in_word_class (inp ! k)" if "i \<le> k" "k < j" for k
  proof -
    from that j have k: "k - i < length ?run" by linarith
    then have "?run ! (k - i) = drop i inp ! (k - i)"
      by (rule takeWhile_nth)
    also have "\<dots> = inp ! k" using that il len k by simp
    finally have "inp ! k = ?run ! (k - i)" by simp
    moreover have "?run ! (k - i) \<in> set ?run" using k by (rule nth_mem)
    ultimately show ?thesis by (auto dest: set_takeWhileD)
  qed
  from j len il b cls show ?thesis by auto
qed

lemma sentence_rest_bounds:
  "sentence_rest U inp i = Some j \<Longrightarrow> i < j \<and> j \<le> length inp"
proof (induction U inp i arbitrary: j rule: sentence_rest.induct)
  case (1 U t i)
  from "1.prems" have il: "i < length t"
    by (subst (asm) sentence_rest.simps) (simp split: if_splits)
  from "1.prems" il consider
      (a) "\<not> is_stop (t ! i)" "sentence_rest U t (Suc i) = Some j"
    | (b) "t ! i = 46" "Suc i < length t" "is_digit U (t ! Suc i)" "sentence_rest U t (i + 2) = Some j"
    | (c) "j = Suc i"
    by (subst (asm) sentence_rest.simps) (auto split: if_splits option.splits)
  then show ?case
  proof cases
    case a
    with "1.IH"(1) [of j] il show ?thesis by simp
  next
    case b
    have "(if \<not> is_stop (t ! i) then sentence_rest U t (Suc i) else None) = None"
      using b by (simp add: is_stop_def)
    with "1.IH"(2) [of j] b il show ?thesis by simp
  next
    case c
    with il show ?thesis by simp
  qed
qed

lemma match_sentence_bounds:
  "match_sentence U inp i = Some j \<Longrightarrow> i < j \<and> j \<le> length inp"
  by (auto simp: match_sentence_def split: if_splits dest: sentence_rest_bounds)

lemma match_syllable_bounds:
  "match_syllable inp i = Some j \<Longrightarrow> i < j \<and> j \<le> length inp"
  by (cases inp) (auto simp: match_syllable_def split: if_splits)

lemma filter_drop_Suc_le:
  "length (filter P (drop (Suc i) xs)) \<le> length (filter P (drop i xs))"
proof (cases "i < length xs")
  case True
  then have "drop i xs = xs ! i # drop (Suc i) xs" by (simp add: Cons_nth_drop_Suc)
  then show ?thesis by simp
next
  case False
  then show ?thesis by simp
qed

lemma syllables_le_vowels:
  "length (findall_spans match_syllable w i) \<le> length (filter vowel (drop i w))"
proof (induction match_syllable w i rule: findall_spans.induct)
  case (1 w i)
  show ?case
  proof (cases "length w < i")
    case True
    then show ?thesis by (subst findall_spans.simps) simp
  next
    case le: False
    show ?thesis
    proof (cases "match_syllable w i")
      case None
      with le have "findall_spans match_syllable w i = findall_spans match_syllable w (Suc i)"
        by (subst findall_spans.simps) simp
      with "1.hyps"(1) [OF le None] filter_drop_Suc_le [of vowel i w] show ?thesis by simp
    next
      case (Some j)
      with le have eq: "findall_spans match_syllable w i = (i, j) # findall_spans match_syllable w (max j (Suc i))"
        by (subst findall_spans.simps) simp
      from Some have "(j = 1 \<and> i = 0 \<and> 0 < length w \<and> vowel (w ! 0))
          \<or> (j = i + 2 \<and> Suc i < length w \<and> vowel (w ! Suc i))"
        by (auto simp: match_syllable_def split: if_splits)
      then have "Suc (length (filter vowel (drop (max j (Suc i)) w))) \<le> length (filter vowel (drop i w))"
      proof
        assume a: "j = 1 \<and> i = 0 \<and> 0 < length w \<and> vowel (w ! 0)"
        then show ?thesis by (cases w) simp_all
      next
        assume a: "j = i + 2 \<and> Suc i < length w \<and> vowel (w ! Suc i)"
        then have "drop (Suc i) w = w ! Suc i # drop (Suc (Suc i)) w" by (simp add: Cons_nth_drop_Suc)
        with a have "Suc (length (filter vowel (drop (i + 2) w))) \<le> length (filter vowel (drop (Suc i) w))"
          by simp
        with filter_drop_Suc_le [of vowel i w] a show ?thesis by (simp add: max_def)
      qed
      with "1.hyps"(2) [OF le Some] eq show ?thesis by simp
    qed
  qed
qed

section \<open>Properties of the float model\<close>

lemma bit_length_lower: "0 < k \<Longrightarrow> 2 ^ (bit_length k - 1) \<le> k"
proof (induction k rule: bit_length.induct)
  case (1 k)
  show ?case
  proof (cases "k div 2 \<le> 0")
    case True
    then have "bit_length (k div 2) = 0" by (simp add: bit_length.simps [of "k div 2"])
    with "1.prems" show ?thesis by (simp add: bit_length.simps [of k])
  next
    case False
    with "1.IH" "1.prems" have ih: "2 ^ (bit_length (k div 2) - 1) \<le> k div 2" by simp
    from False have "bit_length (k div 2) = Suc (bit_length (k div 2) - 1)"
      by (simp add: bit_length.simps [of "k div 2"])
    then have "(2::int) ^ bit_length (k div 2) = 2 * 2 ^ (bit_length (k div 2) - 1)"
      by (metis power_Suc)
    with ih have "(2::int) ^ bit_length (k div 2) \<le> 2 * (k div 2)" by simp
    also have "\<dots> \<le> k" by simp
    finally show ?thesis using "1.prems" by (simp add: bit_length.simps [of k])
  qed
qed


lemma round_half_even_ge: "1 \<le> y \<Longrightarrow> 1 \<le> round_half_even y"
proof -
  assume "1 \<le> y"
  then have "1 \<le> \<lfloor>y\<rfloor>" by simp
  then show ?thesis by (simp add: round_half_even_def Let_def)
qed

lemma binary_exponent_le:
  assumes "1 \<le> x"
  shows "2 powi binary_exponent x \<le> x"
proof -
  let ?L = "bit_length \<lfloor>x\<rfloor>"
  from assms have fl: "0 < \<lfloor>x\<rfloor>" by simp
  have "(2::int) ^ (?L - 1) \<le> \<lfloor>x\<rfloor>" using fl by (rule bit_length_lower)
  then have "of_int ((2::int) ^ (?L - 1)) \<le> x" by (simp add: le_floor_iff del: of_int_power)
  then have low: "(2::rat) ^ (?L - 1) \<le> x" by simp
  have e: "binary_exponent x \<le> max (int ?L - 52) (- 1074)"
    using assms by (simp add: binary_exponent_def Let_def)
  have "(2::rat) powi binary_exponent x \<le> 2 powi max (int ?L - 52) (- 1074)"
    using e by (intro power_int_increasing) simp_all
  also have "\<dots> \<le> x"
  proof (cases "int ?L - 52 \<le> - 1074")
    case True
    then have "(2::rat) powi max (int ?L - 52) (- 1074) = 2 powi (- 1074)" by (simp add: max_def)
    also have "\<dots> \<le> 2 powi 0" by (intro power_int_increasing) simp_all
    finally show ?thesis using assms by simp
  next
    case False
    then have "(2::rat) powi max (int ?L - 52) (- 1074) = 2 powi (int ?L - 52)" by (simp add: max_def)
    also have "\<dots> \<le> 2 powi (int (?L - 1))" by (intro power_int_increasing) auto
    also have "\<dots> = 2 ^ (?L - 1)" by (rule power_int_of_nat)
    finally show ?thesis using low by simp
  qed
  finally show ?thesis .
qed

lemma round_double_pos:
  assumes "1 \<le> x"
  shows "0 < round_double x"
proof -
  let ?e = "binary_exponent \<bar>x\<bar>"
  from assms have ax: "\<bar>x\<bar> = x" by simp
  have p: "(0::rat) < 2 powi ?e" by simp
  have "1 \<le> x / 2 powi ?e"
    using binary_exponent_le [OF assms] p ax by (simp add: le_divide_eq)
  then have "1 \<le> round_half_even (x / 2 powi ?e)" by (rule round_half_even_ge)
  then have "(0::rat) < of_int (round_half_even (x / 2 powi ?e))" by simp
  with p have "(0::rat) < of_int (round_half_even (x / 2 powi ?e)) * 2 powi ?e" by simp
  with assms ax show ?thesis by (simp add: round_double_def Let_def)
qed

lemma float_of_nat_eq_0_iff: "float_of_nat n = 0 \<longleftrightarrow> n = 0"
proof (cases "n = 0")
  case True
  then show ?thesis by (simp add: float_of_nat_def round_double_def)
next
  case False
  then have "(1::rat) \<le> of_nat n" by simp
  from round_double_pos [OF this] False show ?thesis by (simp add: float_of_nat_def)
qed

lemma fog_formula_error:
  "fog_formula s w c = (if s = 0 \<or> w = 0 then Inl ZeroDivisionError
     else Inr (float_mul (round_double (2 / 5))
            (float_add (round_double (float_of_nat w / float_of_nat s))
                       (round_double (float_mul (float_of_nat 100) (float_of_nat c) / float_of_nat w)))))"
  by (simp add: fog_formula_def float_div_def float_of_nat_eq_0_iff)

lemma float_of_nat_small:
  "float_of_nat 2 = 2" "float_of_nat 4 = 4" "float_of_nat 20 = 20" "float_of_nat 100 = 100"
  by (simp_all add: float_of_nat_def round_double_def binary_exponent_def round_half_even_def
        bit_length.simps Let_def)

lemma round_double_small:
  "round_double 10 = 10" "round_double 20 = 20" "round_double 30 = 30" "round_double 400 = 400"
  by (simp_all add: round_double_def binary_exponent_def round_half_even_def
        bit_length.simps Let_def)

lemma round_double_two_fifths: "round_double (2 / 5) = 3602879701896397 / 9007199254740992"
  by code_simp

lemma round_double_twelve: "round_double (54043195528445955 / 4503599627370496) = 12"
  by code_simp

lemma fog_formula_2_20_4: "fog_formula 2 20 4 = Inr 12"
  by (simp add: fog_formula_error float_mul_def float_add_def float_of_nat_small
        round_double_small round_double_two_fifths round_double_twelve)

section \<open>The claims about Fog\<close>

text \<open>The definitions that the simplifier unfolds to run a pattern on a concrete text.\<close>

lemmas sentence_eval =
  identify_sentences_def match_sentence_def at_boundary_def is_word_def is_digit_def
  is_stop_def ascii_letter_def ascii_upper_def ascii_lower_def ascii_digit_def slice_def str_def

lemmas word_eval =
  identify_words_def match_word_def at_boundary_def is_word_def in_word_class_def
  ascii_letter_def ascii_upper_def ascii_lower_def ascii_digit_def slice_def str_def

lemmas syllable_eval =
  is_complex_word_def count_syllables_def match_syllable_def not_e_end_def at_dollar_def
  vowel_def ascii_vowel_def str_def

text \<open>
  C2, as the code has it. On the text
  \<^verbatim>\<open>This is Mr. Smith's report. It scores 3.5 points.\<close> the function
  \<open>identify_sentences\<close> returns three sentences, not two: the period of \<^verbatim>\<open>Mr.\<close> is
  followed by a space, not by a digit, so it closes a sentence, and \<^verbatim>\<open>Smith's report.\<close>
  is a sentence of its own. The period inside \<^verbatim>\<open>3.5\<close> is followed by a digit and does not
  break the last sentence. This holds whatever the character database says outside ASCII.
\<close>

theorem identify_sentences_mr_smith:
  "identify_sentences U (str ''This is Mr. Smith's report. It scores 3.5 points.'')
     = [str ''This is Mr.'', str ''Smith's report.'', str ''It scores 3.5 points.'']"
  by (simp add: sentence_eval findall_spans.simps sentence_rest.simps)

text \<open>C2 as stated fails: the number of sentences returned for that text is not two.\<close>

theorem identify_sentences_two_counterexample:
  "length (identify_sentences ascii_ucd (str ''This is Mr. Smith's report. It scores 3.5 points.'')) \<noteq> 2"
  by code_simp

text \<open>
  C6. \<open>calculate_fog\<close> raises \<^verbatim>\<open>ZeroDivisionError\<close> exactly when the text has no sentence or
  no word; it raises nothing else, and with at least one sentence and one word it returns
  a float.
\<close>

theorem calculate_fog_zero_division:
  "(calculate_fog U input_text = Inl ZeroDivisionError
      \<longleftrightarrow> identify_sentences U input_text = [] \<or> identify_words U input_text = [])
   \<and> (identify_sentences U input_text \<noteq> [] \<and> identify_words U input_text \<noteq> []
        \<longrightarrow> (\<exists>score. calculate_fog U input_text = Inr score))
   \<and> (\<forall>e. calculate_fog U input_text = Inl e \<longrightarrow> e = ZeroDivisionError)"
  by (simp add: calculate_fog_def Let_def fog_formula_error)

theorem calculate_fog_zero_division_witness:
  "identify_sentences ascii_ucd (str ''A1.'') \<noteq> []
   \<and> identify_words ascii_ucd (str ''A1.'') = []
   \<and> calculate_fog ascii_ucd (str ''A1.'') = Inl ZeroDivisionError
   \<and> identify_sentences ascii_ucd (str ''It rains. We stay.'') \<noteq> []
   \<and> identify_words ascii_ucd (str ''It rains. We stay.'') \<noteq> []
   \<and> (\<exists>score. calculate_fog ascii_ucd (str ''It rains. We stay.'') = Inr score)"
proof -
  have a: "identify_sentences ascii_ucd (str ''A1.'') \<noteq> []" by code_simp
  have b: "identify_words ascii_ucd (str ''A1.'') = []" by code_simp
  have c: "identify_sentences ascii_ucd (str ''It rains. We stay.'') \<noteq> []" by code_simp
  have d: "identify_words ascii_ucd (str ''It rains. We stay.'') \<noteq> []" by code_simp
  from a b c d
    calculate_fog_zero_division [of ascii_ucd "str ''A1.''"]
    calculate_fog_zero_division [of ascii_ucd "str ''It rains. We stay.''"]
  show ?thesis by blast
qed

text \<open>
  C7. A text with two sentences, twenty words and four complex words scores exactly
  \<open>12.0\<close>. In general, with at least one sentence and one word, the score is the formula
  \<^verbatim>\<open>0.4 * (|W|/|S| + 100*|C|/|W|)\<close> evaluated in double arithmetic, from left to right.
\<close>

theorem calculate_fog_formula:
  "(length (identify_sentences U input_text) = 2 \<and> length (identify_words U input_text) = 20
      \<and> length (filter is_complex_word (identify_words U input_text)) = 4
      \<longrightarrow> calculate_fog U input_text = Inr 12)
   \<and> (identify_sentences U input_text \<noteq> [] \<and> identify_words U input_text \<noteq> []
      \<longrightarrow> calculate_fog U input_text =
           Inr (float_mul (round_double (2 / 5))
                  (float_add
                     (round_double (float_of_nat (length (identify_words U input_text))
                                     / float_of_nat (length (identify_sentences U input_text))))
                     (round_double
                        (float_mul (float_of_nat 100)
                           (float_of_nat (length (filter is_complex_word (identify_words U input_text))))
                          / float_of_nat (length (identify_words U input_text)))))))"
proof -
  have "calculate_fog U input_text = Inr 12"
    if "length (identify_sentences U input_text) = 2" "length (identify_words U input_text) = 20"
       "length (filter is_complex_word (identify_words U input_text)) = 4"
    using that by (simp add: calculate_fog_def Let_def fog_formula_2_20_4)
  then show ?thesis
    by (simp add: calculate_fog_def Let_def fog_formula_error)
qed

theorem calculate_fog_formula_witness:
  "length (identify_sentences ascii_ucd (str ''Our company had good sales. The management said financial operations are in a very good shape for the coming year.'')) = 2
   \<and> length (identify_words ascii_ucd (str ''Our company had good sales. The management said financial operations are in a very good shape for the coming year.'')) = 20
   \<and> length (filter is_complex_word (identify_words ascii_ucd (str ''Our company had good sales. The management said financial operations are in a very good shape for the coming year.''))) = 4
   \<and> calculate_fog ascii_ucd (str ''Our company had good sales. The management said financial operations are in a very good shape for the coming year.'') = Inr 12"
proof -
  let ?t = "str ''Our company had good sales. The management said financial operations are in a very good shape for the coming year.''"
  let ?ws = "map str [''Our'', ''company'', ''had'', ''good'', ''sales'', ''The'', ''management'',
    ''said'', ''financial'', ''operations'', ''are'', ''in'', ''a'', ''very'', ''good'', ''shape'',
    ''for'', ''the'', ''coming'', ''year'']"
  have "identify_sentences ascii_ucd ?t = map str [''Our company had good sales.'',
      ''The management said financial operations are in a very good shape for the coming year.'']"
    by (simp add: sentence_eval findall_spans.simps sentence_rest.simps)
  then have s: "length (identify_sentences ascii_ucd ?t) = 2" by simp
  have ws: "identify_words ascii_ucd ?t = ?ws"
    by (simp add: word_eval findall_spans.simps)
  then have w: "length (identify_words ascii_ucd ?t) = 20" by simp
  have "filter is_complex_word ?ws = map str [''company'', ''management'', ''financial'', ''operations'']"
    by (simp add: syllable_eval findall_spans.simps)
  with ws have c: "length (filter is_complex_word (identify_words ascii_ucd ?t)) = 4" by simp
  from s w c calculate_fog_formula [of ascii_ucd ?t] show ?thesis by blast
qed

text \<open>
  C9, as the code has it. Every token of \<open>identify_words\<close> is non-empty and consists of
  ASCII letters, apostrophes and hyphens only. Its first character is an ASCII letter
  unless the character just before the token is a word character (a letter, a digit, an
  underscore), and its last character is an ASCII letter unless the character just after
  the token is a word character: next to a word character an apostrophe or a hyphen
  stands at a \<^verbatim>\<open>\b\<close> and may begin or end the token.
\<close>

theorem identify_words_token_shape:
  assumes "w \<in> set (identify_words U input_text)"
  shows "w \<noteq> [] \<and> (\<forall>c \<in> set w. in_word_class c)
     \<and> (\<exists>s e. s < e \<and> e \<le> length input_text \<and> w = slice input_text (s, e)
          \<and> (ascii_letter (hd w) \<or> (0 < s \<and> is_word U (input_text ! (s - 1))))
          \<and> (ascii_letter (last w) \<or> (e < length input_text \<and> is_word U (input_text ! e))))"
proof -
  from assms obtain s e where
    sp: "(s, e) \<in> set (findall_spans (match_word U) input_text 0)" and w: "w = slice input_text (s, e)"
    by (auto simp: identify_words_def)
  from findall_spans_sound [OF sp] have "match_word U input_text s = Some e" by simp
  from match_word_bounds [OF this] have
    se: "s < e" "e \<le> length input_text" and
    bs: "at_boundary U input_text s" and be: "at_boundary U input_text e" and
    cls: "\<And>k. s \<le> k \<Longrightarrow> k < e \<Longrightarrow> in_word_class (input_text ! k)"
    by auto
  from w se have len: "length w = e - s" by (simp add: slice_def)
  have nth: "w ! k = input_text ! (s + k)" if "k < e - s" for k
    using that w se by (simp add: slice_def)
  from len se have ne: "w \<noteq> []" by auto
  have all: "\<forall>c \<in> set w. in_word_class c"
  proof
    fix c assume "c \<in> set w"
    then obtain k where k: "k < length w" "c = w ! k" by (auto simp: in_set_conv_nth)
    with len nth [of k] cls [of "s + k"] show "in_word_class c" by simp
  qed
  have hd: "hd w = input_text ! s"
    using ne nth [of 0] se by (simp add: hd_conv_nth)
  have last: "last w = input_text ! (e - 1)"
    using ne nth [of "e - s - 1"] se len by (simp add: last_conv_nth)
  have nonword: "\<not> is_word U c" if "in_word_class c" "\<not> ascii_letter c" for c
    using that by (auto simp: in_word_class_def is_word_def ascii_digit_def)
  have first: "ascii_letter (hd w) \<or> (0 < s \<and> is_word U (input_text ! (s - 1)))"
  proof (cases "ascii_letter (input_text ! s)")
    case True
    with hd show ?thesis by simp
  next
    case False
    with cls [of s] se have "\<not> is_word U (input_text ! s)" by (simp add: nonword)
    with bs show ?thesis by (auto simp: at_boundary_def)
  qed
  have final: "ascii_letter (last w) \<or> (e < length input_text \<and> is_word U (input_text ! e))"
  proof (cases "ascii_letter (input_text ! (e - 1))")
    case True
    with last show ?thesis by simp
  next
    case False
    with cls [of "e - 1"] se have "\<not> is_word U (input_text ! (e - 1))" by (simp add: nonword)
    with be show ?thesis by (auto simp: at_boundary_def)
  qed
  from ne all se w first final show ?thesis by blast
qed

theorem identify_words_token_shape_witness:
  "str ''-K'' \<in> set (identify_words ascii_ucd (str ''10-K'')) \<and> str ''-K'' \<noteq> []
   \<and> (\<exists>s e. s < e \<and> e \<le> length (str ''10-K'') \<and> str ''-K'' = slice (str ''10-K'') (s, e)
          \<and> 0 < s \<and> is_word ascii_ucd (str ''10-K'' ! (s - 1)))"
proof -
  have h: "str ''-K'' \<in> set (identify_words ascii_ucd (str ''10-K''))" by code_simp
  have n: "\<not> ascii_letter (hd (str ''-K''))" by code_simp
  from identify_words_token_shape [OF h] n h show ?thesis by blast
qed

text \<open>
  C9 as stated fails: in \<^verbatim>\<open>10-K\<close> the hyphen follows a digit, so the token found is
  \<^verbatim>\<open>-K\<close>, which begins with a hyphen.
\<close>

theorem identify_words_leading_hyphen_counterexample:
  "identify_words ascii_ucd (str ''10-K'') = [str ''-K''] \<and> \<not> ascii_letter (hd (str ''-K''))"
  by code_simp

text \<open>
  C10, as the code has it. \<open>count_syllables\<close> is at most the number of characters of the
  word that the class \<^verbatim>\<open>[aeouiy]\<close> accepts case-insensitively (\<open>vowel\<close>): every match ends
  in one such character and the matches do not overlap. So the count is 0 on a string
  without such a character. For a word without U+0130 and U+0131 these characters are the
  twelve ASCII vowels, and the bound is the one stated.
\<close>

theorem count_syllables_le_vowels:
  "count_syllables word \<le> length (filter vowel word)
   \<and> (304 \<notin> set word \<and> 305 \<notin> set word
        \<longrightarrow> count_syllables word \<le> length (filter ascii_vowel word))
   \<and> (filter vowel word = [] \<longrightarrow> count_syllables word = 0)"
proof -
  have le: "count_syllables word \<le> length (filter vowel word)"
    using syllables_le_vowels [of word 0] by (simp add: count_syllables_def)
  have "filter vowel word = filter ascii_vowel word" if "304 \<notin> set word \<and> 305 \<notin> set word"
    using that by (intro filter_cong) (auto simp: vowel_def)
  with le show ?thesis by auto
qed

theorem count_syllables_le_vowels_witness:
  "304 \<notin> set (str ''management'') \<and> 305 \<notin> set (str ''management'')
   \<and> count_syllables (str ''management'') \<le> length (filter ascii_vowel (str ''management''))
   \<and> filter vowel (str ''pst'') = [] \<and> count_syllables (str ''pst'') = 0"
proof -
  have a: "304 \<notin> set (str ''management'') \<and> 305 \<notin> set (str ''management'')" by code_simp
  have b: "filter vowel (str ''pst'') = []" by code_simp
  from a b count_syllables_le_vowels [of "str ''management''"]
    count_syllables_le_vowels [of "str ''pst''"]
  show ?thesis by blast
qed

text \<open>
  C10 as stated fails: the one-letter string U+0130 contains none of the twelve ASCII
  vowels, and \<open>count_syllables\<close> counts one syllable in it.
\<close>

theorem count_syllables_dotted_I_counterexample:
  "count_syllables [304] = 1 \<and> length (filter ascii_vowel [304]) = 0"
  by code_simp

section \<open>Properties of the extractors\<close>

lemma startswith_append [simp]: "startswith (p @ s) p"
  by (simp add: startswith_def)

lemma lazy_until_first:
  "(\<forall>k<length mid. \<not> startswith (drop k (mid @ p @ post)) p)
   \<Longrightarrow> lazy_until p (mid @ p @ post) = Some (length mid + length p)"
proof (induction mid)
  case Nil
  show ?case
  proof (cases "p @ post")
    case Nil
    then show ?thesis by simp
  next
    case (Cons c s)
    have "startswith (p @ post) p" by simp
    with Cons have "startswith (c # s) p" by simp
    with Cons show ?thesis by simp
  qed
next
  case (Cons c mid)
  from Cons.prems have "\<not> startswith (drop 0 ((c # mid) @ p @ post)) p" by blast
  then have no: "\<not> startswith (c # mid @ p @ post) p" by simp
  have "\<forall>k<length mid. \<not> startswith (drop k (mid @ p @ post)) p"
  proof (intro allI impI)
    fix k assume "k < length mid"
    then have "Suc k < length (c # mid)" by simp
    with Cons.prems have "\<not> startswith (drop (Suc k) ((c # mid) @ p @ post)) p" by blast
    then show "\<not> startswith (drop k (mid @ p @ post)) p" by simp
  qed
  from Cons.IH [OF this] no show ?case by simp
qed

lemma search_span_first:
  "i \<le> n \<Longrightarrow> n \<le> length t \<Longrightarrow> (\<forall>k. i \<le> k \<and> k < n \<longrightarrow> m t k = None) \<Longrightarrow> m t n = Some j
   \<Longrightarrow> search_span m t i = Some (n, j)"
proof (induction "n - i" arbitrary: i)
  case 0
  then have "i = n" by simp
  with 0 show ?case by (subst search_span.simps) simp
next
  case (Suc d)
  then have lt: "i < n" by simp
  with Suc.prems have none: "m t i = None" by simp
  from Suc.hyps(2) lt have d: "d = n - Suc i" by simp
  have "search_span m t (Suc i) = Some (n, j)"
    using Suc.hyps(1) [OF d] Suc.prems lt by simp
  with none lt Suc.prems show ?case by (subst search_span.simps) simp
qed

lemma search_span_none:
  "(\<forall>k. m t k = None) \<Longrightarrow> search_span m t i = None"
proof (induction "Suc (length t) - i" arbitrary: i)
  case 0
  then show ?case by (subst search_span.simps) simp
next
  case (Suc d)
  then have "search_span m t (Suc i) = None" by simp
  with Suc.prems show ?case by (subst search_span.simps) simp
qed

lemma match_mdan_needs_quote:
  assumes "8217 \<notin> set html"
  shows "match_mdan html i = None"
proof (rule ccontr)
  assume "match_mdan html i \<noteq> None"
  then have "take (length mdan_phrase) (drop i html) = mdan_phrase"
    by (simp add: match_mdan_def startswith_def split: if_splits)
  moreover have "8217 \<in> set mdan_phrase" by (simp add: mdan_phrase_def)
  ultimately have "8217 \<in> set (take (length mdan_phrase) (drop i html))" by simp
  then have "8217 \<in> set html" by (meson in_set_dropD in_set_takeD)
  with assms show False by simp
qed

lemma strptime_error: "strptime U x = Inl e \<Longrightarrow> e = ValueError"
  by (auto simp: strptime_def split: list.splits prod.splits if_splits)

lemma report_date_absent:
  "filing_title doc = [] \<or> (\<exists>title0 others. filing_title doc = title0 # others \<and> element_text title0 = None)
   \<Longrightarrow> report_date U doc = Inr None"
  by (auto simp: report_date_def)

lemma report_date_unparsable:
  "filing_title doc = title0 # others \<Longrightarrow> element_text title0 = Some s \<Longrightarrow> py_split s \<noteq> []
   \<Longrightarrow> \<forall>d. strptime U (last (py_split s)) \<noteq> Inr d \<Longrightarrow> report_date U doc = Inl ValueError"
  by (cases "strptime U (last (py_split s))") (auto simp: report_date_def dest: strptime_error)

lemma shared_extract_mdna:
  assumes "cls \<in> {AppleMDNA, NetflixMDNA, FacebookMDNA, AmazonMDNA}" "fromstring L html = Inr doc"
  shows "(report_date U doc = Inr None \<longrightarrow> extract_mdna cls L U html = Inr None)
       \<and> (report_date U doc = Inl e \<longrightarrow> extract_mdna cls L U html = Inl e)"
  using assms
  by (auto simp: apple_extract_mdna_def netflix_extract_mdna_def amazon_extract_mdna_def
        scan_extract_mdna_def)

text \<open>
  After the bare \<^verbatim>\<open>return\<close> of \<open>extract_mdna\<close>, \<open>get_mdna_text\<close> unpacks \<^verbatim>\<open>None\<close> into two
  names, which raises \<^verbatim>\<open>TypeError\<close>.
\<close>

lemma get_mdna_text_missing_title:
  assumes "cls \<in> {AppleMDNA, NetflixMDNA, FacebookMDNA, AmazonMDNA}" "fromstring L html = Inr doc"
    and "report_date U doc = Inr None"
  shows "get_mdna_text cls L U html = Inl TypeError"
  using shared_extract_mdna [OF assms(1,2), of U] assms(3) by (simp add: get_mdna_text_def)

lemma decimal_value_lt: "decimal_value U c = Some v \<Longrightarrow> v < 10"
  by (auto simp: decimal_value_def ascii_digit_def split: if_splits option.splits)

lemma year_alts_bound: "(y, r) \<in> set (year_alts U s) \<Longrightarrow> y \<le> 9999"
proof -
  assume a: "(y, r) \<in> set (year_alts U s)"
  then obtain c1 c2 c3 c4 v1 v2 v3 v4 where
    v: "decimal_value U c1 = Some v1" "decimal_value U c2 = Some v2"
       "decimal_value U c3 = Some v3" "decimal_value U c4 = Some v4"
    and y: "y = 1000 * v1 + 100 * v2 + 10 * v3 + v4"
    by (auto simp: year_alts_def split: list.splits option.splits) metis
  from v have "v1 < 10" "v2 < 10" "v3 < 10" "v4 < 10" by (auto dest: decimal_value_lt)
  with y show ?thesis by simp
qed

lemma strptime_matches_year: "((y, m, d), r) \<in> set (strptime_matches U s) \<Longrightarrow> y \<le> 9999"
  by (auto simp: strptime_matches_def dest: year_alts_bound)

lemma strptime_year_range:
  assumes "strptime U x = Inr (y, m, d)"
  shows "1 \<le> y \<and> y \<le> 9999"
proof -
  from assms obtain r ms where ms: "strptime_matches U x = ((y, m, d), r) # ms" and "y \<noteq> 0"
    by (auto simp: strptime_def split: list.splits prod.splits if_splits)
  then have "((y, m, d), r) \<in> set (strptime_matches U x)" by simp
  from strptime_matches_year [OF this] \<open>y \<noteq> 0\<close> show ?thesis by simp
qed

lemma decimal_length_4:
  assumes "1000 \<le> n" "n \<le> 9999"
  shows "length (decimal n) = 4"
proof -
  from assms have a: "\<not> n < 10" "\<not> n div 10 < 10" "\<not> n div 10 div 10 < 10" "n div 10 div 10 div 10 < 10"
    by simp_all
  show ?thesis
    by (simp add: decimal.simps [of n] decimal.simps [of "n div 10"]
          decimal.simps [of "n div 10 div 10"] decimal.simps [of "n div 10 div 10 div 10"] a)
qed

lemma first_summary_cell_found:
  assumes "\<forall>c \<in> set before. \<forall>x. element_text c = Some x
             \<longrightarrow> \<not> startswith (py_strip x) (str ''Summary of Significant Accounting Policies'')"
    and "element_text td = Some s"
    and "startswith (py_strip s) (str ''Summary of Significant Accounting Policies'')"
  shows "first_summary_cell L (before @ td # after) = Some (tostring L td)"
  using assms by (induction before) (auto split: option.splits)

lemma distinct_block_tags: "distinct block_tags"
  by (simp add: block_tags_def str_def)

lemma is_tag_add_newline [simp]: "is_tag name (add_newline c) = is_tag name c"
  by (cases c) simp_all

lemma mark_unlisted:
  "\<not> list_ex (\<lambda>name. is_tag name c) names
   \<Longrightarrow> foldl (\<lambda>c name. if is_tag name c then add_newline c else c) c names = c"
  by (induction names) simp_all

lemma is_tag_unique: "is_tag name c \<Longrightarrow> is_tag name' c \<Longrightarrow> name' = name"
  by (cases c) simp_all

lemma mark_listed:
  "distinct names \<Longrightarrow>
   foldl (\<lambda>c name. if is_tag name c then add_newline c else c) c names
     = (if list_ex (\<lambda>name. is_tag name c) names then add_newline c else c)"
proof (induction names arbitrary: c)
  case Nil
  show ?case by simp
next
  case (Cons name names)
  show ?case
  proof (cases "is_tag name c")
    case True
    have "\<not> list_ex (\<lambda>n. is_tag n (add_newline c)) names"
      using Cons.prems True by (auto simp: list_ex_iff dest: is_tag_unique)
    then show ?thesis using True by (simp add: mark_unlisted)
  next
    case False
    with Cons show ?thesis by simp
  qed
qed

lemma foldl_mark_children:
  "foldl mark_children (Element t a x cs tail) names
     = Element t a x (map (\<lambda>c. foldl (\<lambda>c name. if is_tag name c then add_newline c else c) c names) cs) tail"
  by (induction names arbitrary: cs) (simp_all add: comp_def)


text \<open>The definitions that the simplifier unfolds to run the extractors on the examples.\<close>

lemmas doc_eval =
  filing_tree_def title_div_def summary_cell_def whole_def
  filing_title_def has_tag_attr_def xpath_all_def str_def

lemmas date_eval =
  strptime_def strptime_matches_def month_alts_def day_alts_def year_alts_def lit_def
  decimal_value_def ascii_digit_def days_in_month_def leap_year_def str_def

lemma all_below_list: "(\<forall>k<n. P k) = list_all P [0..<n]"
  by (auto simp: list_all_iff)

lemma filing_lxml_parse:
  "fromstring (filing_lxml title) (markup (filing_tree title)) = Inr (whole (filing_tree title))"
  by (simp add: filing_lxml_def table_lxml_def)

lemma filing_lxml_tostring: "tostring (filing_lxml title) = markup"
  by (simp add: filing_lxml_def table_lxml_def)

lemma fragment_lxml_parse:
  "fromstring (fragment_lxml n) (markup n)
     = Inr \<lparr>tree = Element (str ''html'') [] None [Element (str ''body'') [] None [n] None] None,
            focus = n\<rparr>"
  by (simp add: fragment_lxml_def table_lxml_def)

lemma filing_title_example:
  "filing_title (whole (filing_tree [title_div title]))
     = [Element (str ''span'') [] (Some (str title)) [] None]"
  by (simp add: doc_eval)

lemma filing_cells_example:
  "xpath_all (has_tag_attr (str ''td'') (str ''class'') (str ''text'')) (tree (whole (filing_tree title)))
     = [] @ summary_cell # []" if "title = [] \<or> title = [title_div t]"
  using that by (auto simp add: doc_eval)

lemma first_occurrence:
  assumes "startswith (drop n s) p"
  obtains k where "k \<le> n" "startswith (drop k s) p" "\<forall>j<k. \<not> startswith (drop j s) p"
proof -
  define k where "k = (LEAST k. startswith (drop k s) p)"
  have "startswith (drop k s) p" unfolding k_def using assms by (rule LeastI)
  moreover have "k \<le> n" unfolding k_def using assms by (rule Least_le)
  moreover have "\<forall>j<k. \<not> startswith (drop j s) p"
    unfolding k_def by (auto dest: not_less_Least)
  ultimately show ?thesis using that by blast
qed

lemma startswith_split:
  "startswith (drop k s) p \<Longrightarrow> s = take k s @ p @ drop (k + length p) s"
proof -
  assume "startswith (drop k s) p"
  then have "take (length p) (drop k s) = p" by (simp add: startswith_def)
  then have "drop k s = p @ drop (length p) (drop k s)"
    by (metis append_take_drop_id)
  then have "drop k s = p @ drop (k + length p) s" by (simp add: add.commute)
  then show ?thesis by (metis append_take_drop_id)
qed

lemma google_extract_span:
  assumes "html = pre @ mdan_phrase @ mid @ hr_open @ post"
    and "\<forall>k<length pre. \<not> startswith (drop k html) mdan_phrase"
    and "\<forall>k<length mid. \<not> startswith (drop k (mid @ hr_open @ post)) hr_open"
  shows "extract_mdna GoogleMDNA L U html = Inr (Some (Some (mdan_phrase @ mid @ hr_open), None))"
proof -
  let ?n = "length pre" and ?j = "length pre + length mdan_phrase + (length mid + length hr_open)"
  have before: "\<forall>k. 0 \<le> k \<and> k < ?n \<longrightarrow> match_mdan html k = None"
    using assms(2) by (simp add: match_mdan_def)
  have "drop (?n + length mdan_phrase) html = mid @ hr_open @ post"
    using assms(1) by simp
  moreover have "startswith (drop ?n html) mdan_phrase"
    using assms(1) by simp
  ultimately have here: "match_mdan html ?n = Some ?j"
    using lazy_until_first [OF assms(3)] by (simp add: match_mdan_def)
  have "search_span match_mdan html 0 = Some (?n, ?j)"
    using before here assms(1) by (intro search_span_first) simp_all
  moreover have "slice html (?n, ?j) = mdan_phrase @ mid @ hr_open"
    using assms(1) by (simp add: slice_def)
  ultimately show ?thesis by (simp add: google_extract_mdna_def)
qed

lemma google_extract_span_example:
  "extract_mdna GoogleMDNA (table_lxml []) ascii_ucd
     (str ''<p>'' @ mdan_phrase @ str ''<div>...</div>'' @ hr_open @ str '' size=1><hr>'')
   = Inr (Some (Some (mdan_phrase @ str ''<div>...</div>'' @ hr_open), None))"
proof -
  let ?html = "str ''<p>'' @ mdan_phrase @ str ''<div>...</div>'' @ hr_open @ str '' size=1><hr>''"
  have a: "\<forall>k<length (str ''<p>''). \<not> startswith (drop k ?html) mdan_phrase"
    by (simp add: all_below_list startswith_def mdan_phrase_def hr_open_def str_def)
  have b: "\<forall>k<length (str ''<div>...</div>'').
             \<not> startswith (drop k (str ''<div>...</div>'' @ hr_open @ str '' size=1><hr>'')) hr_open"
    by (simp add: all_below_list startswith_def hr_open_def str_def)
  from google_extract_span [OF refl a b] show ?thesis .
qed

section \<open>The claims about the extractors\<close>

text \<open>
  C1, as the code has it, for the four classes that use the title convention
  (\<^verbatim>\<open>AppleMDNA\<close>, \<^verbatim>\<open>NetflixMDNA\<close>, \<^verbatim>\<open>AmazonMDNA\<close>, and \<^verbatim>\<open>FacebookMDNA\<close> by inheritance). When the document has no title span, or the
  first title span has no text, \<open>extract_mdna\<close> returns \<^verbatim>\<open>None\<close> and does not raise. When
  the span has text whose last token \<^verbatim>\<open>strptime\<close> does not accept, \<open>extract_mdna\<close> raises
  \<^verbatim>\<open>ValueError\<close>, and so does \<open>get_mdna_text\<close>: nothing between \<^verbatim>\<open>strptime\<close> and the caller
  catches it.
\<close>

theorem title_convention_failure:
  assumes "cls \<in> {AppleMDNA, NetflixMDNA, FacebookMDNA, AmazonMDNA}"
    and "fromstring L html = Inr doc"
  shows "(filing_title doc = []
            \<or> (\<exists>title0 others. filing_title doc = title0 # others \<and> element_text title0 = None)
          \<longrightarrow> extract_mdna cls L U html = Inr None)
       \<and> ((\<exists>title0 others s. filing_title doc = title0 # others \<and> element_text title0 = Some s
               \<and> py_split s \<noteq> [] \<and> (\<forall>d. strptime U (last (py_split s)) \<noteq> Inr d))
          \<longrightarrow> extract_mdna cls L U html = Inl ValueError
              \<and> get_mdna_text cls L U html = Inl ValueError)"
proof (intro conjI impI)
  assume "filing_title doc = []
            \<or> (\<exists>title0 others. filing_title doc = title0 # others \<and> element_text title0 = None)"
  then have "report_date U doc = Inr None" by (rule report_date_absent)
  with shared_extract_mdna [OF assms] show "extract_mdna cls L U html = Inr None" by blast
next
  assume a: "\<exists>title0 others s. filing_title doc = title0 # others \<and> element_text title0 = Some s
               \<and> py_split s \<noteq> [] \<and> (\<forall>d. strptime U (last (py_split s)) \<noteq> Inr d)"
  then have "report_date U doc = Inl ValueError" by (auto intro: report_date_unparsable)
  with shared_extract_mdna [OF assms] show e: "extract_mdna cls L U html = Inl ValueError" by blast
  then show "get_mdna_text cls L U html = Inl ValueError" by (simp add: get_mdna_text_def)
qed

theorem title_convention_failure_witness:
  "AppleMDNA \<in> {AppleMDNA, NetflixMDNA, FacebookMDNA, AmazonMDNA}
   \<and> fromstring (filing_lxml []) (markup (filing_tree [])) = Inr (whole (filing_tree []))
   \<and> filing_title (whole (filing_tree [])) = []
   \<and> extract_mdna AppleMDNA (filing_lxml []) ascii_ucd (markup (filing_tree [])) = Inr None
   \<and> fromstring (filing_lxml [title_div ''Annual Report 13/45/2020''])
        (markup (filing_tree [title_div ''Annual Report 13/45/2020'']))
      = Inr (whole (filing_tree [title_div ''Annual Report 13/45/2020'']))
   \<and> strptime ascii_ucd (last (py_split (str ''Annual Report 13/45/2020''))) = Inl ValueError
   \<and> get_mdna_text AppleMDNA (filing_lxml [title_div ''Annual Report 13/45/2020'']) ascii_ucd
        (markup (filing_tree [title_div ''Annual Report 13/45/2020''])) = Inl ValueError"
proof -
  let ?bad = "[title_div ''Annual Report 13/45/2020'']"
  have c: "AppleMDNA \<in> {AppleMDNA, NetflixMDNA, FacebookMDNA, AmazonMDNA}" by simp
  note p1 = filing_lxml_parse [of "[]"]
  have t1: "filing_title (whole (filing_tree [])) = []" by (simp add: doc_eval)
  note p2 = filing_lxml_parse [of ?bad]
  note t2 = filing_title_example [of "''Annual Report 13/45/2020''"]
  have s2: "py_split (str ''Annual Report 13/45/2020'')
            = [str ''Annual'', str ''Report'', str ''13/45/2020'']"
    by (simp add: py_split_def is_space_def str_def)
  have "strptime ascii_ucd (str ''13/45/2020'') = Inl ValueError"
    by (simp add: date_eval)
  with s2 have d2: "strptime ascii_ucd (last (py_split (str ''Annual Report 13/45/2020''))) = Inl ValueError"
    by simp
  from t2 s2 d2 have h2: "\<exists>title0 others s. filing_title (whole (filing_tree ?bad)) = title0 # others
      \<and> element_text title0 = Some s \<and> py_split s \<noteq> []
      \<and> (\<forall>d. strptime ascii_ucd (last (py_split s)) \<noteq> Inr d)"
    by simp
  from title_convention_failure [OF c p1, of ascii_ucd] t1
  have r1: "extract_mdna AppleMDNA (filing_lxml []) ascii_ucd (markup (filing_tree [])) = Inr None"
    by blast
  from title_convention_failure [OF c p2, of ascii_ucd] h2
  have r2: "get_mdna_text AppleMDNA (filing_lxml ?bad) ascii_ucd (markup (filing_tree ?bad)) = Inl ValueError"
    by blast
  from c p1 t1 r1 p2 d2 r2 show ?thesis by blast
qed

text \<open>
  C1 as stated fails: a title whose last token is \<^verbatim>\<open>2020-10-15\<close> makes \<open>get_mdna_text\<close>
  raise \<^verbatim>\<open>ValueError\<close>; it yields no absent result.
\<close>

theorem unparsable_date_raises_counterexample:
  "get_mdna_text NetflixMDNA (filing_lxml [title_div ''Annual Report 2020-10-15'']) ascii_ucd
     (markup (filing_tree [title_div ''Annual Report 2020-10-15''])) = Inl ValueError"
proof -
  let ?t = "[title_div ''Annual Report 2020-10-15'']"
  have s: "py_split (str ''Annual Report 2020-10-15'')
            = [str ''Annual'', str ''Report'', str ''2020-10-15'']"
    by (simp add: py_split_def is_space_def str_def)
  have "strptime ascii_ucd (str ''2020-10-15'') = Inl ValueError"
    by (simp add: date_eval)
  with s filing_title_example [of "''Annual Report 2020-10-15''"]
  have "report_date ascii_ucd (whole (filing_tree ?t)) = Inl ValueError"
    by (simp add: report_date_def)
  with filing_lxml_parse [of ?t] show ?thesis
    by (simp add: get_mdna_text_def netflix_extract_mdna_def scan_extract_mdna_def)
qed

text \<open>
  C3, as the code has it. The phrase of the pattern is written with the right single
  quotation mark U+2019. On every document that contains that phrase followed somewhere
  later by \<^verbatim>\<open><hr\<close>, \<open>extract_mdna\<close> of \<^verbatim>\<open>GoogleMDNA\<close> returns, with no year, the span that
  starts at the first occurrence of the phrase (\<open>pre\<close> has none) and ends with the first
  \<^verbatim>\<open><hr\<close> after the phrase (none starts inside \<open>mid\<close>).
\<close>

theorem google_extract_first_span:
  assumes "html = a @ mdan_phrase @ b @ hr_open @ c"
  shows "\<exists>pre mid post.
           html = pre @ mdan_phrase @ mid @ hr_open @ post
         \<and> (\<forall>k<length pre. \<not> startswith (drop k html) mdan_phrase)
         \<and> (\<forall>k<length mid. \<not> startswith (drop k (mid @ hr_open @ post)) hr_open)
         \<and> extract_mdna GoogleMDNA L U html = Inr (Some (Some (mdan_phrase @ mid @ hr_open), None))"
proof -
  have "startswith (drop (length a) html) mdan_phrase" using assms by simp
  then obtain k where k: "k \<le> length a" "startswith (drop k html) mdan_phrase"
      "\<forall>j<k. \<not> startswith (drop j html) mdan_phrase"
    by (rule first_occurrence)
  define pre where "pre = take k html"
  define rest where "rest = drop (k + length mdan_phrase) html"
  from startswith_split [OF k(2)] have html: "html = pre @ mdan_phrase @ rest"
    by (simp add: pre_def rest_def)
  from k(1) assms have lp: "length pre = k" by (simp add: pre_def)
  define n where "n = length a + length b - k"
  from k(1) have "n + (k + length mdan_phrase) = length a + length mdan_phrase + length b"
    by (simp add: n_def)
  moreover have "drop n rest = drop (n + (k + length mdan_phrase)) html"
    by (simp add: rest_def add.commute)
  ultimately have "drop n rest = drop (length a + length mdan_phrase + length b) html"
    by (simp only:)
  also have "\<dots> = hr_open @ c" using assms by simp
  finally have "startswith (drop n rest) hr_open" by simp
  then obtain m where m: "m \<le> n" "startswith (drop m rest) hr_open"
      "\<forall>j<m. \<not> startswith (drop j rest) hr_open"
    by (rule first_occurrence)
  define mid where "mid = take m rest"
  define post where "post = drop (m + length hr_open) rest"
  from startswith_split [OF m(2)] have rest: "rest = mid @ hr_open @ post"
    by (simp add: mid_def post_def)
  have "length rest = length a + length b + length hr_open + length c - k"
    using assms k(1) by (simp add: rest_def)
  with m(1) have lm: "length mid = m" by (simp add: mid_def n_def)
  have h1: "html = pre @ mdan_phrase @ mid @ hr_open @ post" using html rest by simp
  have h2: "\<forall>j<length pre. \<not> startswith (drop j html) mdan_phrase" using k(3) lp by simp
  have h3: "\<forall>j<length mid. \<not> startswith (drop j (mid @ hr_open @ post)) hr_open"
    using m(3) lm rest by simp
  from google_extract_span [OF h1 h2 h3] h1 h2 h3 show ?thesis by blast
qed

theorem google_extract_first_span_witness:
  "(\<exists>pre mid post.
      str ''<p>'' @ mdan_phrase @ str ''<div>...</div>'' @ hr_open @ str '' size=1><hr>''
        = pre @ mdan_phrase @ mid @ hr_open @ post
    \<and> extract_mdna GoogleMDNA (table_lxml []) ascii_ucd
         (str ''<p>'' @ mdan_phrase @ str ''<div>...</div>'' @ hr_open @ str '' size=1><hr>'')
       = Inr (Some (Some (mdan_phrase @ mid @ hr_open), None)))
   \<and> extract_mdna GoogleMDNA (table_lxml []) ascii_ucd
         (str ''<p>'' @ mdan_phrase @ str ''<div>...</div>'' @ hr_open @ str '' size=1><hr>'')
       = Inr (Some (Some (mdan_phrase @ str ''<div>...</div>'' @ hr_open), None))"
  using google_extract_first_span [OF refl, of "str ''<p>''" "str ''<div>...</div>''" "str '' size=1><hr>''"
      "table_lxml []" ascii_ucd]
    google_extract_span_example
  by blast

text \<open>
  C3 as stated fails: on the phrase written with the ASCII apostrophe, followed by
  \<^verbatim>\<open><hr\<close>, nothing is found and the fragment is absent.
\<close>

theorem google_ascii_apostrophe_counterexample:
  "extract_mdna GoogleMDNA (table_lxml []) ascii_ucd
     (str ''MANAGEMENT'S DISCUSSION AND ANALYSIS OF FINANCIAL CONDITION AND RESULTS OF OPERATIONS<div>...</div><hr>'')
   = Inr (Some (None, None))"
proof -
  let ?html = "str ''MANAGEMENT'S DISCUSSION AND ANALYSIS OF FINANCIAL CONDITION AND RESULTS OF OPERATIONS<div>...</div><hr>''"
  have "8217 \<notin> set ?html" by (simp add: str_def)
  then have "\<forall>k. match_mdan ?html k = None" by (simp add: match_mdan_needs_quote)
  then have "search_span match_mdan ?html 0 = None" by (rule search_span_none)
  then show ?thesis by (simp add: google_extract_mdna_def)
qed

text \<open>
  C4, as the code has it. \<open>get_text_from_html\<close> appends a newline to the leading text
  (creating it when absent or empty) of those children of the parsed element whose tag is
  one of \<^verbatim>\<open>tr, th, td, a, p, div, br, h1, ..., h5\<close>; it leaves every other node as it
  is, deeper descendants included, then takes the text content and strips it.
\<close>

theorem get_text_from_html_children:
  assumes "fromstring L html = Inr doc"
    and "focus doc = Element t a x cs tail"
  shows "get_text_from_html L html
         = Inr (py_strip (text_content
             (Element t a x
                (map (\<lambda>c. if list_ex (\<lambda>name. is_tag name c) block_tags then add_newline c else c) cs)
                tail)))"
  using assms
  by (simp add: get_text_from_html_def foldl_mark_children mark_listed [OF distinct_block_tags])

theorem get_text_from_html_children_witness:
  "fromstring (fragment_lxml paragraphs) (str ''<div><p>A</p><p>B</p></div>'')
     = Inr \<lparr>tree = Element (str ''html'') [] None [Element (str ''body'') [] None [paragraphs] None] None,
            focus = paragraphs\<rparr>
   \<and> get_text_from_html (fragment_lxml paragraphs) (str ''<div><p>A</p><p>B</p></div>'')
     = Inr (str ''A'' @ [10] @ str ''B'')"
proof -
  have m: "markup paragraphs = str ''<div><p>A</p><p>B</p></div>''"
    by (simp add: paragraphs_def opt_text_def str_def)
  have f: "focus \<lparr>tree = Element (str ''html'') [] None [Element (str ''body'') [] None [paragraphs] None] None,
            focus = paragraphs\<rparr>
        = Element (str ''div'') [] None
            [Element (str ''p'') [] (Some (str ''A'')) [] None,
             Element (str ''p'') [] (Some (str ''B'')) [] None] None"
    by (simp add: paragraphs_def)
  from get_text_from_html_children [OF fragment_lxml_parse [of paragraphs] f]
  have "get_text_from_html (fragment_lxml paragraphs) (markup paragraphs) = Inr (str ''A'' @ [10] @ str ''B'')"
    by (simp add: block_tags_def opt_text_def py_strip_def is_space_def str_def)
  with fragment_lxml_parse [of paragraphs] m show ?thesis by simp
qed

text \<open>
  C4 as stated fails: for \<^verbatim>\<open><table><tr><td>A</td><td>B</td></tr></table>\<close> the cells are
  grandchildren of the table, no newline is attached to them, and the newline of the
  row is stripped: the result is \<^verbatim>\<open>AB\<close>, without any line break.
\<close>

theorem table_cells_no_line_break_counterexample:
  "get_text_from_html (fragment_lxml cells_table) (str ''<table><tr><td>A</td><td>B</td></tr></table>'')
     = Inr (str ''AB'')
   \<and> 10 \<notin> set (str ''AB'')"
proof -
  have m: "markup cells_table = str ''<table><tr><td>A</td><td>B</td></tr></table>''"
    by (simp add: cells_table_def opt_text_def str_def)
  have "get_text_from_html (fragment_lxml cells_table) (markup cells_table) = Inr (str ''AB'')"
    using fragment_lxml_parse [of cells_table]
    by (simp add: get_text_from_html_def cells_table_def foldl_mark_children
          mark_listed [OF distinct_block_tags] block_tags_def opt_text_def py_strip_def
          is_space_def str_def)
  with m show ?thesis by (simp add: str_def)
qed

text \<open>
  C5, as the code has it. For \<^verbatim>\<open>AppleMDNA\<close>, when the date of the title is strictly after
  2019-01-01, \<open>extract_mdna\<close> returns what \<open>extract_mdna_after_2019\<close> finds, together with
  the year, a string of four digits; what it finds is the serialization of the first
  table cell of class \<^verbatim>\<open>text\<close> whose stripped text starts with
  \<^verbatim>\<open>Summary of Significant Accounting Policies\<close>. A title ending in \<^verbatim>\<open>10/15/2020\<close> gives the
  year \<^verbatim>\<open>2020\<close>.
\<close>

theorem apple_after_cutoff:
  assumes "fromstring L html = Inr doc"
    and "filing_title doc = title0 # others"
    and "element_text title0 = Some title_text"
    and "py_split title_text \<noteq> []"
    and "strptime U (last (py_split title_text)) = Inr d"
    and "date_gt d (2019, 1, 1)"
  shows "extract_mdna AppleMDNA L U html
           = Inr (Some (extract_mdna_after_2019 L doc, Some (strftime_Y d)))
       \<and> length (strftime_Y d) = 4
       \<and> (xpath_all (has_tag_attr (str ''td'') (str ''class'') (str ''text'')) (tree doc)
             = before @ td # after
          \<and> (\<forall>c \<in> set before. \<forall>x. element_text c = Some x
                \<longrightarrow> \<not> startswith (py_strip x) (str ''Summary of Significant Accounting Policies''))
          \<and> element_text td = Some s
          \<and> startswith (py_strip s) (str ''Summary of Significant Accounting Policies'')
          \<longrightarrow> extract_mdna AppleMDNA L U html
                = Inr (Some (Some (tostring L td), Some (strftime_Y d))))"
proof -
  from assms(2-5) have rd: "report_date U doc = Inr (Some d)"
    by (simp add: report_date_def)
  with assms(1,6) have ex: "extract_mdna AppleMDNA L U html
           = Inr (Some (extract_mdna_after_2019 L doc, Some (strftime_Y d)))"
    by (simp add: apple_extract_mdna_def Let_def)
  obtain y m dd where d: "d = (y, m, dd)" by (cases d)
  with assms(6) have "2019 \<le> y" by auto
  moreover from assms(5) d have "y \<le> 9999" using strptime_year_range by blast
  ultimately have len: "length (strftime_Y d) = 4"
    using d by (simp add: strftime_Y_def decimal_length_4)
  have "extract_mdna_after_2019 L doc = Some (tostring L td)"
    if "xpath_all (has_tag_attr (str ''td'') (str ''class'') (str ''text'')) (tree doc)
             = before @ td # after"
      and "\<forall>c \<in> set before. \<forall>x. element_text c = Some x
                \<longrightarrow> \<not> startswith (py_strip x) (str ''Summary of Significant Accounting Policies'')"
      and "element_text td = Some s"
      and "startswith (py_strip s) (str ''Summary of Significant Accounting Policies'')"
    using first_summary_cell_found [OF that(2-4)] that(1)
    by (simp add: extract_mdna_after_2019_def)
  with ex len show ?thesis by simp
qed

theorem apple_after_cutoff_witness:
  "extract_mdna AppleMDNA (filing_lxml [title_div ''Annual Report 10/15/2020'']) ascii_ucd
     (markup (filing_tree [title_div ''Annual Report 10/15/2020'']))
   = Inr (Some (Some (markup summary_cell), Some (str ''2020'')))
   \<and> strptime ascii_ucd (last (py_split (str ''Annual Report 10/15/2020''))) = Inr (2020, 10, 15)
   \<and> date_gt (2020, 10, 15) (2019, 1, 1)
   \<and> element_text summary_cell = Some (str '' Summary of Significant Accounting Policies and Estimates'')"
proof -
  let ?t = "[title_div ''Annual Report 10/15/2020'']"
  let ?L = "filing_lxml ?t"
  have s: "py_split (str ''Annual Report 10/15/2020'')
            = [str ''Annual'', str ''Report'', str ''10/15/2020'']"
    by (simp add: py_split_def is_space_def str_def)
  then have ne: "py_split (str ''Annual Report 10/15/2020'') \<noteq> []" by simp
  have "strptime ascii_ucd (str ''10/15/2020'') = Inr (2020, 10, 15)"
    by (simp add: date_eval)
  with s have d: "strptime ascii_ucd (last (py_split (str ''Annual Report 10/15/2020''))) = Inr (2020, 10, 15)"
    by simp
  have gt: "date_gt (2020, 10, 15) (2019, 1, 1)" by simp
  have tx: "element_text summary_cell = Some (str '' Summary of Significant Accounting Policies and Estimates'')"
    by (simp add: summary_cell_def)
  have sw: "startswith (py_strip (str '' Summary of Significant Accounting Policies and Estimates''))
              (str ''Summary of Significant Accounting Policies'')"
    by (simp add: startswith_def py_strip_def is_space_def str_def)
  have none: "\<forall>c \<in> set []. \<forall>x. element_text c = Some x
             \<longrightarrow> \<not> startswith (py_strip x) (str ''Summary of Significant Accounting Policies'')"
    by simp
  have yr: "strftime_Y (2020, 10, 15) = str ''2020''"
    by (simp add: strftime_Y_def decimal.simps str_def)
  have el: "element_text (Element (str ''span'') [] (Some (str ''Annual Report 10/15/2020'')) [] None)
            = Some (str ''Annual Report 10/15/2020'')"
    by simp
  from apple_after_cutoff [OF filing_lxml_parse [of ?t] filing_title_example el ne d gt,
      of "[]" summary_cell "[]" "str '' Summary of Significant Accounting Policies and Estimates''"]
    filing_cells_example [of ?t] none tx sw
  have "extract_mdna AppleMDNA ?L ascii_ucd (markup (filing_tree ?t))
          = Inr (Some (Some (tostring ?L summary_cell), Some (strftime_Y (2020, 10, 15))))"
    by blast
  with yr d gt tx show ?thesis by (simp add: filing_lxml_tostring)
qed

text \<open>
  C5 as stated fails on the cutoff day itself: the comparison is \<^verbatim>\<open>report_date > datetime(2019, 1, 1)\<close>,
  so a filing dated 01/01/2019 takes the path for the earlier layout, which finds no
  division in this document; the cell of class \<^verbatim>\<open>text\<close> is not returned.
\<close>

theorem apple_boundary_day_counterexample:
  "extract_mdna AppleMDNA (filing_lxml [title_div ''Annual Report 01/01/2019'']) ascii_ucd
     (markup (filing_tree [title_div ''Annual Report 01/01/2019'']))
   = Inr (Some (None, Some (str ''2019'')))"
proof -
  let ?t = "[title_div ''Annual Report 01/01/2019'']"
  have s: "py_split (str ''Annual Report 01/01/2019'')
            = [str ''Annual'', str ''Report'', str ''01/01/2019'']"
    by (simp add: py_split_def is_space_def str_def)
  have "strptime ascii_ucd (str ''01/01/2019'') = Inr (2019, 1, 1)"
    by (simp add: date_eval)
  with s filing_title_example [of "''Annual Report 01/01/2019''"]
  have rd: "report_date ascii_ucd (whole (filing_tree ?t)) = Inr (Some (2019, 1, 1))"
    by (simp add: report_date_def)
  have yr: "strftime_Y (2019, 1, 1) = str ''2019''"
    by (simp add: strftime_Y_def decimal.simps str_def)
  have "extract_mdna_before_2019 (filing_lxml ?t) (whole (filing_tree ?t)) = None"
    by (simp add: extract_mdna_before_2019_def doc_eval)
  with rd yr filing_lxml_parse [of ?t] show ?thesis
    by (simp add: apple_extract_mdna_def)
qed

text \<open>
  C8. \<^verbatim>\<open>FacebookMDNA\<close> inherits every method of \<^verbatim>\<open>AppleMDNA\<close>: on every input, with the
  same library behind it, \<open>extract_mdna\<close> and \<open>get_mdna_text\<close> give the same result, be it
  a pair, \<^verbatim>\<open>None\<close> or an exception.
\<close>

theorem facebook_is_apple:
  "extract_mdna FacebookMDNA L U html = extract_mdna AppleMDNA L U html
   \<and> get_mdna_text FacebookMDNA L U html = get_mdna_text AppleMDNA L U html"
  by (simp add: get_mdna_text_def)

end
